theory Spec2Isabelle
  imports Complex_Main
begin

section \<open>Data model\<close>

text \<open>
  The plugin computes with C++ \<^verbatim>\<open>double\<close> and \<^verbatim>\<open>int\<close>. Doubles are modelled by
  \<^typ>\<open>real\<close>: finite values, exact arithmetic, no rounding. Where the source divides
  by a value that may be zero the model says what it does with the quotient, or the
  theorem takes the divisor non-zero. The \<^verbatim>\<open>int\<close> counters are modelled by
  \<^typ>\<open>int\<close>; lemma \<open>started_invariant\<close> below shows that the frame counter of a
  started controller stays between 0 and the last frame, so it never overflows.
\<close>

type_synonym Vector3 = "real \<times> real \<times> real"

definition z :: "Vector3 \<Rightarrow> real" where
  "z vec = snd (snd vec)"

definition setZero :: "Vector3" where
  "setZero = (0, 0, 0)"

text \<open>
  \<^verbatim>\<open>Link\<close>: the position \<open>p\<close>, the joint displacement \<open>q\<close>, its velocity \<open>dq\<close> and
  acceleration \<open>ddq\<close>, and the joint torque \<open>u\<close>. \<^verbatim>\<open>DyLink\<close> adds the spatial velocities
  and accelerations that \<^verbatim>\<open>addBody\<close> resets.
\<close>

record Link =
  p :: Vector3
  q :: real
  dq :: real
  ddq :: real
  u :: real

record DyLink = Link +
  v :: Vector3
  dv :: Vector3
  w :: Vector3
  dw :: Vector3
  vo :: Vector3
  dvo :: Vector3

text \<open>The body as the controller sees it: \<^verbatim>\<open>body->joint(i)\<close> for \<open>0 \<le> i < numJoints()\<close>.\<close>

record Body =
  joints :: "Link list"

definition Body_numJoints :: "Body \<Rightarrow> int" where
  "Body_numJoints b = int (length (joints b))"

text \<open>
  \<^verbatim>\<open>MultiValueSeq\<close>: a table of \<open>numFrames\<close> rows (frames) of \<open>numParts\<close> values, with
  a frame rate. \<^verbatim>\<open>getTimeStep()\<close> belongs to the sequence library and is kept as a
  field of its own. \<^verbatim>\<open>frame(k)\<close> and \<^verbatim>\<open>operator[]\<close> are unchecked in C++; the model
  returns \<open>None\<close> for an index out of range.
\<close>

record MultiValueSeq =
  frames :: "real list list"
  numParts :: int
  frameRate :: real
  getTimeStep :: real

definition numFrames :: "MultiValueSeq \<Rightarrow> int" where
  "numFrames sq = int (length (frames sq))"

definition frame :: "MultiValueSeq \<Rightarrow> int \<Rightarrow> real list option" where
  "frame sq k = (if 0 \<le> k \<and> k < numFrames sq then Some (frames sq ! nat k) else None)"

text \<open>Every row of the table has \<open>numParts\<close> columns.\<close>

definition rectangular :: "MultiValueSeq \<Rightarrow> bool" where
  "rectangular sq = list_all (\<lambda>fr. int (length fr) = numParts sq) (frames sq)"

record Target =
  target_body :: Body
  worldTimeStep :: real

section \<open>HighGainControllerItem\<close>

record HighGainControllerItem =
  body :: Body
  qseqRef :: MultiValueSeq
  currentFrame :: int
  lastFrame :: int
  numJoints :: int
  messages :: "string list"

definition putMessage :: "HighGainControllerItem \<Rightarrow> string \<Rightarrow> HighGainControllerItem" where
  "putMessage c msg = c\<lparr>messages := messages c @ [msg]\<rparr>"

text \<open>\<^verbatim>\<open>control()\<close>: pre-increment, compare with \<open>lastFrame\<close>, clamp.\<close>

definition control :: "HighGainControllerItem \<Rightarrow> bool \<times> HighGainControllerItem" where
  "control c =
     (let c1 = c\<lparr>currentFrame := currentFrame c + 1\<rparr>
      in if currentFrame c1 > lastFrame c1
         then (False, c1\<lparr>currentFrame := lastFrame c1\<rparr>)
         else (True, c1))"

text \<open>
  The test \<^verbatim>\<open>fabs(frameRate - (1.0 / worldTimeStep)) > 1.0e-6\<close>. For a zero time step
  the quotient is an IEEE infinity, its distance to any finite frame rate is infinite
  and the test is true.
\<close>

definition frameRateDiffers :: "real \<Rightarrow> real \<Rightarrow> bool" where
  "frameRateDiffers rate step =
     (if step = 0 then True else \<bar>rate - 1 / step\<bar> > 1 / 1000000)"

text \<open>The four assignments that open \<^verbatim>\<open>start()\<close>.\<close>

definition start_init :: "HighGainControllerItem \<Rightarrow> Target \<Rightarrow> HighGainControllerItem" where
  "start_init c target =
     c\<lparr>body := target_body target,
       currentFrame := 0,
       lastFrame := max 0 (numFrames (qseqRef c) - 1),
       numJoints := min (Body_numJoints (target_body target)) (numParts (qseqRef c))\<rparr>"

definition start :: "HighGainControllerItem \<Rightarrow> Target \<Rightarrow> bool \<times> HighGainControllerItem" where
  "start c target =
     (let c1 = start_init c target
      in if numFrames (qseqRef c1) = 0
         then (False, putMessage c1 ''Reference motion is empty().'')
         else if frameRateDiffers (frameRate (qseqRef c1)) (worldTimeStep target)
         then (False, putMessage c1
                 ''The frame rate of the reference motion is different from the world frame rate.'')
         else (True, snd (control c1)))"

definition input :: "HighGainControllerItem \<Rightarrow> HighGainControllerItem" where
  "input c = c"

text \<open>
  \<^verbatim>\<open>output()\<close> is \<open>output_hg\<close> here (\<open>output\<close> is a keyword of Isabelle). The
  loop of \<^verbatim>\<open>output()\<close> over the joint index \<open>i\<close>. \<open>None\<close> stands for an access
  outside the joint array or outside a frame.
\<close>

function output_loop ::
  "real list \<Rightarrow> real list \<Rightarrow> real list \<Rightarrow> real \<Rightarrow> real \<Rightarrow> int \<Rightarrow> int \<Rightarrow> Link list
     \<Rightarrow> Link list option" where
  "output_loop q0 q1 q2 dt dt2 n i js =
     (if i < n then
        (if 0 \<le> i \<and> i < int (length js) \<and> i < int (length q0)
            \<and> i < int (length q1) \<and> i < int (length q2)
         then output_loop q0 q1 q2 dt dt2 n (i + 1)
                (js[nat i := (js ! nat i)
                      \<lparr>q := q1 ! nat i,
                       dq := (q2 ! nat i - q1 ! nat i) / dt,
                       ddq := (q2 ! nat i - 2 * (q1 ! nat i) + q0 ! nat i) / dt2\<rparr>])
         else None)
      else Some js)"
  by pat_completeness auto
termination
  by (relation "measure (\<lambda>(q0, q1, q2, dt, dt2, n, i, js). nat (n - i))") auto

declare output_loop.simps [simp del]

definition output_hg :: "HighGainControllerItem \<Rightarrow> HighGainControllerItem option" where
  "output_hg c =
     (let prevFrame = max (currentFrame c - 1) 0;
          nextFrame = min (currentFrame c + 1) (lastFrame c)
      in case frame (qseqRef c) prevFrame of None \<Rightarrow> None
         | Some q0 \<Rightarrow>
        (case frame (qseqRef c) (currentFrame c) of None \<Rightarrow> None
         | Some q1 \<Rightarrow>
        (case frame (qseqRef c) nextFrame of None \<Rightarrow> None
         | Some q2 \<Rightarrow>
        (let dt = getTimeStep (qseqRef c);
             dt2 = dt * dt
         in case output_loop q0 q1 q2 dt dt2 (numJoints c) 0 (joints (body c)) of
              None \<Rightarrow> None
            | Some js \<Rightarrow> Some (c\<lparr>body := (body c)\<lparr>joints := js\<rparr>\<rparr>)))))"

text \<open>
  The simulator calls \<^verbatim>\<open>input()\<close>, \<^verbatim>\<open>control()\<close> and \<^verbatim>\<open>output()\<close> on a started
  controller, in any order and number. A run is a list of such calls; the value
  \<^verbatim>\<open>control()\<close> returns is dropped here and observed by \<open>control_results\<close>.
\<close>

datatype call = Input | Control | Output

fun exec :: "call \<Rightarrow> HighGainControllerItem \<Rightarrow> HighGainControllerItem option" where
  "exec Input c = Some (input c)"
| "exec Control c = Some (snd (control c))"
| "exec Output c = output_hg c"

fun run :: "call list \<Rightarrow> HighGainControllerItem \<Rightarrow> HighGainControllerItem option" where
  "run [] c = Some c"
| "run (x # xs) c = (case exec x c of None \<Rightarrow> None | Some c' \<Rightarrow> run xs c')"

text \<open>The values returned by \<open>k\<close> consecutive calls of \<^verbatim>\<open>control()\<close>.\<close>

fun control_results :: "nat \<Rightarrow> HighGainControllerItem \<Rightarrow> bool list" where
  "control_results 0 c = []"
| "control_results (Suc k) c = fst (control c) # control_results k (snd (control c))"

section \<open>PMSimulatorItem\<close>

text \<open>
  The two \<^verbatim>\<open>Selection\<close> members with the symbols the constructor gives them. A
  \<^verbatim>\<open>Selection\<close> is modelled by the value it has selected; \<^verbatim>\<open>is(m)\<close> is equality.
\<close>

datatype DynamicsMode = FORWARD_DYNAMICS | HG_DYNAMICS | KINEMATICS

datatype IntegrationMode = EULER_INTEGRATION | RUNGE_KUTTA_INTEGRATION





text \<open>
  Modelled from the spec: \<^verbatim>\<open>FloatingNumberString\<close> of the host framework, a number kept
  as the decimal string it was given as, together with its numeric value. Assigning a
  string keeps the string and the number it parses to; a string that does not parse
  changes nothing. The parser is a parameter \<open>strtod\<close>.
\<close>

record FloatingNumberString =
  fns_string :: string
  fns_value :: real


text \<open>
  The bodies. A \<^verbatim>\<open>DyBody\<close> has an address (the key of \<^verbatim>\<open>BodyIndexMap\<close>), its links
  with the index of the root link among them, and the leg information that
  \<^verbatim>\<open>getLeggedBodyHelper\<close> returns for it: validity and the foot links in the order
  \<^verbatim>\<open>footLink(i)\<close> enumerates them. A \<^verbatim>\<open>SimulationBody\<close> pairs a body with its
  controller, if any; only the controller's dynamic type matters here.
\<close>

record LeggedBodyHelper =
  isValid :: bool
  footLinks :: "Link list"

record DyBody =
  addr :: nat
  rootLink :: nat
  links :: "DyLink list"
  legged :: LeggedBodyHelper

datatype ControllerItem = HighGainController | OtherController

record SimulationBody =
  sim_body :: DyBody
  controller :: "ControllerItem option"

text \<open>
  The world, its constraint force solver, the bodies' kinematics and the link traversal
  belong to other files. The model records every call the simulator item makes on them,
  with its arguments, in program order. A body is named by its address, a support foot by
  its position in the enumeration of the feet (\<open>None\<close> is the null pointer).
  \<open>LinkTraverseCalcForwardKinematics b foot up down vel acc\<close> stands for the traversal
  \<^verbatim>\<open>LinkTraverse(foot, up, down)\<close> of body \<open>b\<close> followed by its
  \<^verbatim>\<open>calcForwardKinematics(vel, acc)\<close>.
\<close>

datatype DynamicsStrategy = StandardForwardDynamics | HighGainForwardDynamicsCBM

datatype Call =
    SetEulerMethod
  | SetRungeKuttaMethod
  | SetGravityAcceleration Vector3
  | EnableSensors bool
  | SetTimeStep real
  | SetCurrentTime real
  | SetGaussSeidelErrorCriterion real
  | SetGaussSeidelMaxNumIterations int
  | SetContactDepthCorrection real real
  | ClearBodies
  | AddBody nat DynamicsStrategy
  | SetFriction real real
  | SetContactCullingDistance real
  | SetContactCullingDepth real
  | SetCoefficientOfRestitution real
  | SetCollisionDetector nat
  | Set2Dmode bool
  | SetPenaltyKp real
  | SetPenaltyKv real
  | Initialize
  | SolverClearExternalForces
  | CalcNextState
  | BodyClearExternalForces nat
  | BodyCalcForwardKinematics nat bool bool
  | LinkTraverseCalcForwardKinematics nat "nat option" bool bool bool bool

text \<open>
  Modelled from the spec: the body registry of the world, which belongs to the dynamics
  library. \<^verbatim>\<open>addBody(body[, dynamicsStrategy])\<close> appends the body with its strategy
  and returns its index; \<^verbatim>\<open>clearBodies()\<close> empties the registry. It is the field
  \<open>world_bodies\<close> below.
\<close>

text \<open>
  \<^verbatim>\<open>PMSimulatorItemImpl\<close>. \<open>trace\<close> is the record of calls.
  \<open>self_worldTimeStep\<close> and \<open>self_collisionDetector\<close> are what the owning item
  answers to \<^verbatim>\<open>worldTimeStep()\<close> and \<^verbatim>\<open>collisionDetector()\<close>.
\<close>

record PMSimulatorItemImpl =
  trace :: "Call list"
  world_bodies :: "(nat \<times> DynamicsStrategy) list"
  dynamicsMode :: DynamicsMode
  integrationMode :: IntegrationMode
  gravity :: Vector3
  staticFriction :: real
  slipFriction :: real
  contactCullingDistance :: FloatingNumberString
  contactCullingDepth :: FloatingNumberString
  errorCriterion :: FloatingNumberString
  maxNumIterations :: int
  contactCorrectionDepth :: FloatingNumberString
  contactCorrectionVelocityRatio :: FloatingNumberString
  epsilon :: real
  is2Dmode :: bool
  isKinematicWalkingEnabled :: bool
  penaltyKp :: real
  penaltyKv :: real
  bodyIndexMap :: "nat \<rightharpoonup> int"
  self_worldTimeStep :: real
  self_collisionDetector :: nat

definition call :: "PMSimulatorItemImpl \<Rightarrow> Call list \<Rightarrow> PMSimulatorItemImpl" where
  "call impl cs = impl\<lparr>trace := trace impl @ cs\<rparr>"

definition setIntegrationMode :: "PMSimulatorItemImpl \<Rightarrow> IntegrationMode \<Rightarrow> PMSimulatorItemImpl" where
  "setIntegrationMode impl mode = impl\<lparr>integrationMode := mode\<rparr>"

subsection \<open>addBody\<close>

text \<open>The loop over all links of the body.\<close>

fun resetJoints :: "DyLink list \<Rightarrow> DyLink list" where
  "resetJoints [] = []"
| "resetJoints (link # rest) = link\<lparr>u := 0, dq := 0, ddq := 0\<rparr> # resetJoints rest"

definition resetRootLink :: "DyLink \<Rightarrow> DyLink" where
  "resetRootLink link =
     link\<lparr>v := setZero, dv := setZero, w := setZero, dw := setZero, vo := setZero,
          dvo := setZero\<rparr>"

text \<open>
  The flag \<^verbatim>\<open>isHighGainMode\<close>; the \<^verbatim>\<open>dynamic_cast\<close> succeeds for a controller that
  is a \<^verbatim>\<open>HighGainControllerItem\<close>.
\<close>

definition isHighGainMode :: "PMSimulatorItemImpl \<Rightarrow> SimulationBody \<Rightarrow> bool" where
  "isHighGainMode impl simBody =
     (let flag = (dynamicsMode impl = HG_DYNAMICS)
      in if controller simBody = Some HighGainController then True else flag)"

definition addBody ::
  "PMSimulatorItemImpl \<Rightarrow> SimulationBody \<Rightarrow> PMSimulatorItemImpl \<times> SimulationBody" where
  "addBody impl simBody =
     (let b = sim_body simBody;
          b1 = b\<lparr>links := (links b)[rootLink b := resetRootLink (links b ! rootLink b)]\<rparr>;
          b2 = b1\<lparr>links := resetJoints (links b1)\<rparr>;
          impl1 = call impl [BodyClearExternalForces (addr b2),
                             BodyCalcForwardKinematics (addr b2) True True];
          strategy = (if isHighGainMode impl simBody then HighGainForwardDynamicsCBM
                      else StandardForwardDynamics);
          index = int (length (world_bodies impl1));
          impl2 = (call impl1 [AddBody (addr b2) strategy])
                    \<lparr>world_bodies := world_bodies impl1 @ [(addr b2, strategy)]\<rparr>
      in (impl2\<lparr>bodyIndexMap := (bodyIndexMap impl2)(addr b2 \<mapsto> index)\<rparr>,
          simBody\<lparr>sim_body := b2\<rparr>))"

subsection \<open>initializeSimulation\<close>

text \<open>
  \<^verbatim>\<open>ENABLE_DEBUG_OUTPUT\<close> is the constant \<^verbatim>\<open>false\<close>, so the logging block is not
  part of the model. \<open>addBodies\<close> is the loop over \<^verbatim>\<open>simBodies\<close>.
\<close>

fun addBodies ::
  "PMSimulatorItemImpl \<Rightarrow> SimulationBody list \<Rightarrow> PMSimulatorItemImpl \<times> SimulationBody list" where
  "addBodies impl [] = (impl, [])"
| "addBodies impl (simBody # rest) =
     (case addBody impl simBody of (impl1, simBody1) \<Rightarrow>
        (case addBodies impl1 rest of (impl2, rest1) \<Rightarrow> (impl2, simBody1 # rest1)))"

definition initializeSimulation ::
  "PMSimulatorItemImpl \<Rightarrow> SimulationBody list
     \<Rightarrow> bool \<times> PMSimulatorItemImpl \<times> SimulationBody list" where
  "initializeSimulation impl simBodies =
     (let impl1 = call impl
            [SetEulerMethod,
             SetGravityAcceleration (gravity impl),
             EnableSensors True,
             SetTimeStep (self_worldTimeStep impl),
             SetCurrentTime 0,
             SetGaussSeidelErrorCriterion (fns_value (errorCriterion impl)),
             SetGaussSeidelMaxNumIterations (maxNumIterations impl),
             SetContactDepthCorrection (fns_value (contactCorrectionDepth impl))
               (fns_value (contactCorrectionVelocityRatio impl)),
             ClearBodies];
          impl2 = impl1\<lparr>world_bodies := [], bodyIndexMap := Map.empty\<rparr>;
          (impl3, simBodies1) = addBodies impl2 simBodies;
          impl4 = call impl3
            [SetFriction (staticFriction impl3) (slipFriction impl3),
             SetContactCullingDistance (fns_value (contactCullingDistance impl3)),
             SetContactCullingDepth (fns_value (contactCullingDepth impl3)),
             SetCoefficientOfRestitution (epsilon impl3),
             SetCollisionDetector (self_collisionDetector impl3)];
          impl5 = (if is2Dmode impl4 then call impl4 [Set2Dmode True] else impl4);
          impl6 = call impl5 [SetPenaltyKp (penaltyKp impl5), SetPenaltyKv (penaltyKv impl5),
                              Initialize]
      in (True, impl6, simBodies1))"

subsection \<open>stepSimulation\<close>

text \<open>
  The search for the support foot: \<open>i\<close> is the loop counter, \<open>supportFoot\<close> the foot
  kept so far.
\<close>

function supportFoot_loop :: "Link list \<Rightarrow> nat \<Rightarrow> nat option \<Rightarrow> nat option" where
  "supportFoot_loop feet i supportFoot =
     (if i < length feet then
        supportFoot_loop feet (i + 1)
          (case supportFoot of
             None \<Rightarrow> Some i
           | Some s \<Rightarrow> if z (p (feet ! i)) < z (p (feet ! s)) then Some i else Some s)
      else supportFoot)"
  by pat_completeness auto
termination
  by (relation "measure (\<lambda>(feet, i, supportFoot). length feet - i)") auto

declare supportFoot_loop.simps [simp del]

text \<open>The calls made for one body in either loop of the kinematics mode.\<close>

definition plainKinematics :: "SimulationBody \<Rightarrow> Call" where
  "plainKinematics simBody = BodyCalcForwardKinematics (addr (sim_body simBody)) True True"

definition walkingKinematics :: "SimulationBody \<Rightarrow> Call" where
  "walkingKinematics simBody =
     (let b = sim_body simBody; helper = legged b
      in if \<not> isValid helper then BodyCalcForwardKinematics (addr b) True True
         else LinkTraverseCalcForwardKinematics (addr b)
                (supportFoot_loop (footLinks helper) 0 None) True True True True)"

fun kinematicsLoop :: "(SimulationBody \<Rightarrow> Call) \<Rightarrow> PMSimulatorItemImpl \<Rightarrow> SimulationBody list
    \<Rightarrow> PMSimulatorItemImpl" where
  "kinematicsLoop body_call impl [] = impl"
| "kinematicsLoop body_call impl (simBody # rest) =
     kinematicsLoop body_call (call impl [body_call simBody]) rest"

definition stepSimulation ::
  "PMSimulatorItemImpl \<Rightarrow> SimulationBody list \<Rightarrow> bool \<times> PMSimulatorItemImpl" where
  "stepSimulation impl activeSimBodies =
     (let impl1 = call impl [SolverClearExternalForces]
      in if dynamicsMode impl1 \<noteq> KINEMATICS then (True, call impl1 [CalcNextState])
         else if \<not> isKinematicWalkingEnabled impl1
         then (True, kinematicsLoop plainKinematics impl1 activeSimBodies)
         else (True, kinematicsLoop walkingKinematics impl1 activeSimBodies))"

subsection \<open>store and restore\<close>

















section \<open>Concrete inputs\<close>

text \<open>
  A reference motion of three frames for two joints at 1000 Hz, a body with three
  joints, a world stepping at 0.001 s, and a controller as its constructor leaves it:
  the motion is set, the counters hold arbitrary values.
\<close>

definition ex_seq :: MultiValueSeq where
  "ex_seq = \<lparr>frames = [ [0, 1], [1, 3], [4, 9] ], numParts = 2, frameRate = 1000,
             getTimeStep = 1 / 1000\<rparr>"

definition ex_link :: Link where
  "ex_link = \<lparr>p = (0, 0, 0), q = 5, dq = 5, ddq = 5, u = 5\<rparr>"

definition ex_body :: Body where
  "ex_body = \<lparr>joints = [ex_link, ex_link, ex_link]\<rparr>"

definition ex_target :: Target where
  "ex_target = \<lparr>target_body = ex_body, worldTimeStep = 1 / 1000\<rparr>"

definition ex_controller :: HighGainControllerItem where
  "ex_controller = \<lparr>body = \<lparr>joints = []\<rparr>, qseqRef = ex_seq, currentFrame = 7,
                     lastFrame = 7, numJoints = 7, messages = []\<rparr>"

text \<open>The same controller with an empty motion, with a 500 Hz motion, with one frame.\<close>

definition ex_controller_empty :: HighGainControllerItem where
  "ex_controller_empty = ex_controller\<lparr>qseqRef := ex_seq\<lparr>frames := []\<rparr>\<rparr>"

definition ex_controller_500 :: HighGainControllerItem where
  "ex_controller_500 = ex_controller\<lparr>qseqRef := ex_seq\<lparr>frameRate := 500\<rparr>\<rparr>"

definition ex_controller_one :: HighGainControllerItem where
  "ex_controller_one = ex_controller\<lparr>qseqRef := ex_seq\<lparr>frames := [ [2, 6] ]\<rparr>\<rparr>"

text \<open>The controller after \<^verbatim>\<open>start()\<close> on that target, and after one more \<^verbatim>\<open>control()\<close>.\<close>

definition ex_started :: HighGainControllerItem where
  "ex_started = \<lparr>body = ex_body, qseqRef = ex_seq, currentFrame = 1, lastFrame = 2,
                  numJoints = 2, messages = []\<rparr>"

definition ex_last :: HighGainControllerItem where
  "ex_last = ex_started\<lparr>currentFrame := 2\<rparr>"

definition ex_started_one :: HighGainControllerItem where
  "ex_started_one = \<lparr>body = ex_body, qseqRef = ex_seq\<lparr>frames := [ [2, 6] ]\<rparr>,
                      currentFrame = 0, lastFrame = 0, numJoints = 2, messages = []\<rparr>"

text \<open>
  A simulator item, a humanoid with two feet at heights 0.05 and 0.02 driven by a
  high-gain controller, and a body without leg information and without controller.
\<close>

definition ex_impl :: PMSimulatorItemImpl where
  "ex_impl = \<lparr>trace = [], world_bodies = [], dynamicsMode = FORWARD_DYNAMICS,
     integrationMode = EULER_INTEGRATION, gravity = (0, 0, - 980665 / 100000),
     staticFriction = 1, slipFriction = 1 / 2,
     contactCullingDistance = \<lparr>fns_string = ''0.005'', fns_value = 5 / 1000\<rparr>,
     contactCullingDepth = \<lparr>fns_string = ''0.05'', fns_value = 5 / 100\<rparr>,
     errorCriterion = \<lparr>fns_string = ''0.001'', fns_value = 1 / 1000\<rparr>,
     maxNumIterations = 1000,
     contactCorrectionDepth = \<lparr>fns_string = ''0.0001'', fns_value = 1 / 10000\<rparr>,
     contactCorrectionVelocityRatio = \<lparr>fns_string = ''1'', fns_value = 1\<rparr>,
     epsilon = 0, is2Dmode = False, isKinematicWalkingEnabled = False,
     penaltyKp = 50000, penaltyKv = 500, bodyIndexMap = Map.empty,
     self_worldTimeStep = 1 / 1000, self_collisionDetector = 0\<rparr>"

definition ex_dylink :: DyLink where
  "ex_dylink = \<lparr>p = (0, 0, 1), q = 5, dq = 5, ddq = 5, u = 5, v = (1, 2, 3), dv = (1, 2, 3),
     w = (1, 2, 3), dw = (1, 2, 3), vo = (1, 2, 3), dvo = (1, 2, 3)\<rparr>"

definition ex_humanoid :: SimulationBody where
  "ex_humanoid = \<lparr>sim_body = \<lparr>addr = 7, rootLink = 0, links = [ex_dylink, ex_dylink],
       legged = \<lparr>isValid = True,
                  footLinks = [ex_link\<lparr>p := (0, 1, 5 / 100)\<rparr>, ex_link\<lparr>p := (0, 0, 2 / 100)\<rparr>]\<rparr>\<rparr>,
     controller = Some HighGainController\<rparr>"

definition ex_box :: SimulationBody where
  "ex_box = \<lparr>sim_body = \<lparr>addr = 8, rootLink = 0, links = [ex_dylink],
       legged = \<lparr>isValid = False, footLinks = []\<rparr>\<rparr>,
     controller = None\<rparr>"

definition ex_impl_kinematics :: PMSimulatorItemImpl where
  "ex_impl_kinematics = ex_impl\<lparr>dynamicsMode := KINEMATICS\<rparr>"

definition ex_impl_walking :: PMSimulatorItemImpl where
  "ex_impl_walking = ex_impl\<lparr>dynamicsMode := KINEMATICS, isKinematicWalkingEnabled := True\<rparr>"






section \<open>Properties of the controller\<close>

lemma start_init_qseqRef: "qseqRef (start_init c target) = qseqRef c"
  by (simp add: start_init_def)

lemma frameRateDiffers_nonzero:
  "step \<noteq> 0 \<Longrightarrow> frameRateDiffers rate step = (\<bar>rate - 1 / step\<bar> > 1 / 1000000)"
  by (simp add: frameRateDiffers_def)

lemma frameRateDiffers_1000: "\<not> frameRateDiffers 1000 (1 / 1000)"
  by (simp add: frameRateDiffers_def)

lemma frameRateDiffers_500: "frameRateDiffers 500 (1 / 1000)"
  by (simp add: frameRateDiffers_def)

lemma start_cases:
  "start c target =
     (if numFrames (qseqRef c) = 0
      then (False, putMessage (start_init c target) ''Reference motion is empty().'')
      else if frameRateDiffers (frameRate (qseqRef c)) (worldTimeStep target)
      then (False, putMessage (start_init c target)
              ''The frame rate of the reference motion is different from the world frame rate.'')
      else (True, snd (control (start_init c target))))"
  by (simp add: start_def Let_def start_init_qseqRef)

text \<open>
  C2. \<^verbatim>\<open>start()\<close> returns false with the empty-motion message when the motion has no
  frame, false with the frame-rate message when the frame rate is more than 1e-6 away from
  the reciprocal of the world time step, and true otherwise. With a world time step of
  0.001 s it succeeds at 1000 Hz and fails at 500 Hz.
\<close>

theorem start_result:
  "(numFrames (qseqRef c) = 0 \<longrightarrow>
      start c target = (False, putMessage (start_init c target) ''Reference motion is empty().''))
   \<and> (numFrames (qseqRef c) \<noteq> 0 \<and> worldTimeStep target \<noteq> 0
        \<and> \<bar>frameRate (qseqRef c) - 1 / worldTimeStep target\<bar> > 1 / 1000000 \<longrightarrow>
      start c target = (False, putMessage (start_init c target)
        ''The frame rate of the reference motion is different from the world frame rate.''))
   \<and> (numFrames (qseqRef c) \<noteq> 0 \<and> worldTimeStep target \<noteq> 0
        \<and> \<not> \<bar>frameRate (qseqRef c) - 1 / worldTimeStep target\<bar> > 1 / 1000000 \<longrightarrow>
      fst (start c target) = True)
   \<and> (numFrames (qseqRef c) \<noteq> 0 \<and> worldTimeStep target = 1 / 1000
        \<and> frameRate (qseqRef c) = 1000 \<longrightarrow> fst (start c target) = True)
   \<and> (numFrames (qseqRef c) \<noteq> 0 \<and> worldTimeStep target = 1 / 1000
        \<and> frameRate (qseqRef c) = 500 \<longrightarrow>
      start c target = (False, putMessage (start_init c target)
        ''The frame rate of the reference motion is different from the world frame rate.''))"
proof (intro conjI impI)
  assume "numFrames (qseqRef c) = 0"
  then show "start c target = (False, putMessage (start_init c target) ''Reference motion is empty().'')"
    by (simp add: start_cases)
next
  assume "numFrames (qseqRef c) \<noteq> 0 \<and> worldTimeStep target \<noteq> 0
        \<and> \<bar>frameRate (qseqRef c) - 1 / worldTimeStep target\<bar> > 1 / 1000000"
  then show "start c target = (False, putMessage (start_init c target)
        ''The frame rate of the reference motion is different from the world frame rate.'')"
    by (simp add: start_cases frameRateDiffers_nonzero)
next
  assume "numFrames (qseqRef c) \<noteq> 0 \<and> worldTimeStep target \<noteq> 0
        \<and> \<not> \<bar>frameRate (qseqRef c) - 1 / worldTimeStep target\<bar> > 1 / 1000000"
  then show "fst (start c target) = True"
    by (simp add: start_cases frameRateDiffers_nonzero)
next
  assume a: "numFrames (qseqRef c) \<noteq> 0 \<and> worldTimeStep target = 1 / 1000
        \<and> frameRate (qseqRef c) = 1000"
  then have "\<not> frameRateDiffers (frameRate (qseqRef c)) (worldTimeStep target)"
    using frameRateDiffers_1000 by metis
  with a show "fst (start c target) = True"
    by (simp add: start_cases)
next
  assume a: "numFrames (qseqRef c) \<noteq> 0 \<and> worldTimeStep target = 1 / 1000
        \<and> frameRate (qseqRef c) = 500"
  then have "frameRateDiffers (frameRate (qseqRef c)) (worldTimeStep target)"
    using frameRateDiffers_500 by metis
  with a show "start c target = (False, putMessage (start_init c target)
        ''The frame rate of the reference motion is different from the world frame rate.'')"
    by (simp add: start_cases)
qed

theorem start_result_witness:
  "start ex_controller_empty ex_target
     = (False, putMessage (start_init ex_controller_empty ex_target) ''Reference motion is empty().'')
   \<and> start ex_controller_500 ex_target
     = (False, putMessage (start_init ex_controller_500 ex_target)
        ''The frame rate of the reference motion is different from the world frame rate.'')
   \<and> fst (start ex_controller ex_target) = True"
proof -
  have e: "numFrames (qseqRef ex_controller_empty) = 0"
    by (simp add: ex_controller_empty_def ex_controller_def ex_seq_def numFrames_def)
  have m: "numFrames (qseqRef ex_controller_500) \<noteq> 0 \<and> worldTimeStep ex_target = 1 / 1000
        \<and> frameRate (qseqRef ex_controller_500) = 500"
    by (simp add: ex_controller_500_def ex_controller_def ex_seq_def ex_target_def numFrames_def)
  have s: "numFrames (qseqRef ex_controller) \<noteq> 0 \<and> worldTimeStep ex_target = 1 / 1000
        \<and> frameRate (qseqRef ex_controller) = 1000"
    by (simp add: ex_controller_def ex_seq_def ex_target_def numFrames_def)
  note r1 = start_result [of ex_controller_empty ex_target, THEN conjunct1, THEN mp, OF e]
  note r2 = start_result [of ex_controller_500 ex_target, THEN conjunct2, THEN conjunct2,
      THEN conjunct2, THEN conjunct2, THEN mp, OF m]
  note r3 = start_result [of ex_controller ex_target, THEN conjunct2, THEN conjunct2,
      THEN conjunct2, THEN conjunct1, THEN mp, OF s]
  from r1 r2 r3 show ?thesis by (intro conjI)
qed

lemma control_fields:
  "lastFrame (snd (control c)) = lastFrame c"
  "numJoints (snd (control c)) = numJoints c"
  "qseqRef (snd (control c)) = qseqRef c"
  "body (snd (control c)) = body c"
  "messages (snd (control c)) = messages c"
  by (simp_all add: control_def Let_def)

lemma control_currentFrame:
  "currentFrame (snd (control c)) = min (currentFrame c + 1) (lastFrame c)"
  by (simp add: control_def Let_def)

lemma control_fst: "fst (control c) = (currentFrame c + 1 \<le> lastFrame c)"
  by (auto simp add: control_def Let_def)

lemma output_loop_length:
  "output_loop q0 q1 q2 dt dt2 n i js = Some js' \<Longrightarrow> length js' = length js"
proof (induction q0 q1 q2 dt dt2 n i js rule: output_loop.induct)
  case (1 q0 q1 q2 dt dt2 n i js)
  show ?case
  proof (cases "i < n")
    case True
    with "1.prems" have inr: "0 \<le> i \<and> i < int (length js) \<and> i < int (length q0)
            \<and> i < int (length q1) \<and> i < int (length q2)"
      by (subst (asm) output_loop.simps) (simp split: if_splits)
    let ?js = "js[nat i := (js ! nat i)
                      \<lparr>q := q1 ! nat i,
                       dq := (q2 ! nat i - q1 ! nat i) / dt,
                       ddq := (q2 ! nat i - 2 * (q1 ! nat i) + q0 ! nat i) / dt2\<rparr>]"
    from True inr "1.prems" have r: "output_loop q0 q1 q2 dt dt2 n (i + 1) ?js = Some js'"
      by (subst (asm) output_loop.simps) simp
    from "1.IH" [OF True inr r] show ?thesis by simp
  next
    case False
    with "1.prems" show ?thesis
      by (subst (asm) output_loop.simps) simp
  qed
qed

lemma output_loop_succeeds:
  "0 \<le> i \<Longrightarrow> n \<le> int (length js) \<Longrightarrow> n \<le> int (length q0) \<Longrightarrow> n \<le> int (length q1)
     \<Longrightarrow> n \<le> int (length q2) \<Longrightarrow> \<exists>js'. output_loop q0 q1 q2 dt dt2 n i js = Some js'"
proof (induction q0 q1 q2 dt dt2 n i js rule: output_loop.induct)
  case (1 q0 q1 q2 dt dt2 n i js)
  show ?case
  proof (cases "i < n")
    case True
    with "1.prems" have inr: "0 \<le> i \<and> i < int (length js) \<and> i < int (length q0)
            \<and> i < int (length q1) \<and> i < int (length q2)"
      by simp
    from "1.IH" [OF True inr] "1.prems" True inr show ?thesis
      by (subst output_loop.simps) simp
  next
    case False
    then show ?thesis
      by (subst output_loop.simps) simp
  qed
qed

lemma output_loop_other:
  "output_loop q0 q1 q2 dt dt2 n i js = Some js' \<Longrightarrow> 0 \<le> k \<Longrightarrow> k < i \<Longrightarrow>
     js' ! nat k = js ! nat k"
proof (induction q0 q1 q2 dt dt2 n i js rule: output_loop.induct)
  case (1 q0 q1 q2 dt dt2 n i js)
  show ?case
  proof (cases "i < n")
    case True
    with "1.prems" have inr: "0 \<le> i \<and> i < int (length js) \<and> i < int (length q0)
            \<and> i < int (length q1) \<and> i < int (length q2)"
      by (subst (asm) output_loop.simps) (simp split: if_splits)
    let ?js = "js[nat i := (js ! nat i)
                      \<lparr>q := q1 ! nat i,
                       dq := (q2 ! nat i - q1 ! nat i) / dt,
                       ddq := (q2 ! nat i - 2 * (q1 ! nat i) + q0 ! nat i) / dt2\<rparr>]"
    from True inr "1.prems" have r: "output_loop q0 q1 q2 dt dt2 n (i + 1) ?js = Some js'"
      by (subst (asm) output_loop.simps) simp
    from "1.IH" [OF True inr r] "1.prems" have "js' ! nat k = ?js ! nat k"
      by simp
    moreover from \<open>0 \<le> k\<close> \<open>k < i\<close> have "nat k \<noteq> nat i" by linarith
    ultimately show ?thesis by simp
  next
    case False
    with "1.prems" show ?thesis
      by (subst (asm) output_loop.simps) simp
  qed
qed

lemma output_loop_writes:
  "output_loop q0 q1 q2 dt dt2 n i js = Some js' \<Longrightarrow> i \<le> k \<Longrightarrow> k < n \<Longrightarrow>
     js' ! nat k = (js ! nat k)
        \<lparr>q := q1 ! nat k,
         dq := (q2 ! nat k - q1 ! nat k) / dt,
         ddq := (q2 ! nat k - 2 * (q1 ! nat k) + q0 ! nat k) / dt2\<rparr>"
proof (induction q0 q1 q2 dt dt2 n i js rule: output_loop.induct)
  case (1 q0 q1 q2 dt dt2 n i js)
  from "1.prems" have True: "i < n" by simp
  with "1.prems" have inr: "0 \<le> i \<and> i < int (length js) \<and> i < int (length q0)
            \<and> i < int (length q1) \<and> i < int (length q2)"
    by (subst (asm) output_loop.simps) (simp split: if_splits)
  let ?js = "js[nat i := (js ! nat i)
                      \<lparr>q := q1 ! nat i,
                       dq := (q2 ! nat i - q1 ! nat i) / dt,
                       ddq := (q2 ! nat i - 2 * (q1 ! nat i) + q0 ! nat i) / dt2\<rparr>]"
  from True inr "1.prems" have r: "output_loop q0 q1 q2 dt dt2 n (i + 1) ?js = Some js'"
    by (subst (asm) output_loop.simps) simp
  show ?case
  proof (cases "k = i")
    case True
    from output_loop_other [OF r, of i] inr have "js' ! nat i = ?js ! nat i"
      by simp
    moreover from inr have "nat i < length js" by linarith
    ultimately show ?thesis unfolding True by simp
  next
    case False
    with "1.prems" have "i + 1 \<le> k" by simp
    from "1.IH" [OF \<open>i < n\<close> inr r this \<open>k < n\<close>] have
      "js' ! nat k = (?js ! nat k)
        \<lparr>q := q1 ! nat k,
         dq := (q2 ! nat k - q1 ! nat k) / dt,
         ddq := (q2 ! nat k - 2 * (q1 ! nat k) + q0 ! nat k) / dt2\<rparr>" .
    moreover from False inr \<open>i \<le> k\<close> have "nat k \<noteq> nat i" by linarith
    ultimately show ?thesis by simp
  qed
qed

lemma frame_in_range:
  "0 \<le> k \<Longrightarrow> k < numFrames sq \<Longrightarrow> frame sq k = Some (frames sq ! nat k)"
  by (simp add: frame_def)

lemma rectangular_length:
  "rectangular sq \<Longrightarrow> 0 \<le> k \<Longrightarrow> k < numFrames sq \<Longrightarrow> int (length (frames sq ! nat k)) = numParts sq"
  by (simp add: rectangular_def list_all_length numFrames_def)

text \<open>One call of output on a controller whose counters are within the sequence.\<close>

lemma output_hg_writes:
  assumes rect: "rectangular (qseqRef c)"
    and lo: "0 \<le> currentFrame c" and hi: "currentFrame c \<le> lastFrame c"
    and last: "lastFrame c < numFrames (qseqRef c)"
    and nb: "numJoints c \<le> int (length (joints (body c)))"
    and np: "numJoints c \<le> numParts (qseqRef c)"
  shows "\<exists>c'. output_hg c = Some c'
     \<and> c' = c\<lparr>body := body c'\<rparr>
     \<and> length (joints (body c')) = length (joints (body c))
     \<and> (\<forall>i. 0 \<le> i \<and> i < numJoints c \<longrightarrow>
           joints (body c') ! nat i = (joints (body c) ! nat i)
             \<lparr>q := frames (qseqRef c) ! nat (currentFrame c) ! nat i,
              dq := (frames (qseqRef c) ! nat (min (currentFrame c + 1) (lastFrame c)) ! nat i
                      - frames (qseqRef c) ! nat (currentFrame c) ! nat i) / getTimeStep (qseqRef c),
              ddq := (frames (qseqRef c) ! nat (min (currentFrame c + 1) (lastFrame c)) ! nat i
                      - 2 * (frames (qseqRef c) ! nat (currentFrame c) ! nat i)
                      + frames (qseqRef c) ! nat (max (currentFrame c - 1) 0) ! nat i)
                     / (getTimeStep (qseqRef c) * getTimeStep (qseqRef c))\<rparr>)"
proof -
  let ?sq = "qseqRef c"
  let ?f = "currentFrame c"
  let ?prev = "max (?f - 1) 0"
  let ?next = "min (?f + 1) (lastFrame c)"
  let ?q0 = "frames ?sq ! nat ?prev"
  let ?q1 = "frames ?sq ! nat ?f"
  let ?q2 = "frames ?sq ! nat ?next"
  let ?dt = "getTimeStep ?sq"
  from lo hi last have b0: "0 \<le> ?prev" "?prev < numFrames ?sq" by simp_all
  from lo hi last have b1: "0 \<le> ?f" "?f < numFrames ?sq" by simp_all
  from lo hi last have b2: "0 \<le> ?next" "?next < numFrames ?sq" by simp_all
  have f0: "frame ?sq ?prev = Some ?q0" using b0 by (rule frame_in_range)
  have f1: "frame ?sq ?f = Some ?q1" using b1 by (rule frame_in_range)
  have f2: "frame ?sq ?next = Some ?q2" using b2 by (rule frame_in_range)
  have l0: "numJoints c \<le> int (length ?q0)"
    using rectangular_length [OF rect b0] np by simp
  have l1: "numJoints c \<le> int (length ?q1)"
    using rectangular_length [OF rect b1] np by simp
  have l2: "numJoints c \<le> int (length ?q2)"
    using rectangular_length [OF rect b2] np by simp
  from output_loop_succeeds [OF _ nb l0 l1 l2, of 0 ?dt "?dt * ?dt"]
  obtain js' where js': "output_loop ?q0 ?q1 ?q2 ?dt (?dt * ?dt) (numJoints c) 0 (joints (body c)) = Some js'"
    by auto
  have out: "output_hg c = Some (c\<lparr>body := (body c)\<lparr>joints := js'\<rparr>\<rparr>)"
    by (simp only: output_hg_def Let_def f0 f1 f2 js' option.case)
  have len: "length js' = length (joints (body c))"
    using js' by (rule output_loop_length)
  have wr: "\<forall>i. 0 \<le> i \<and> i < numJoints c \<longrightarrow>
     js' ! nat i = (joints (body c) ! nat i)
        \<lparr>q := ?q1 ! nat i, dq := (?q2 ! nat i - ?q1 ! nat i) / ?dt,
         ddq := (?q2 ! nat i - 2 * (?q1 ! nat i) + ?q0 ! nat i) / (?dt * ?dt)\<rparr>"
    using output_loop_writes [OF js'] by blast
  show ?thesis
    using out len wr by simp
qed

lemma output_hg_fields:
  assumes "output_hg c = Some c'"
  shows "qseqRef c' = qseqRef c \<and> currentFrame c' = currentFrame c \<and> lastFrame c' = lastFrame c
     \<and> numJoints c' = numJoints c \<and> messages c' = messages c"
  using assms by (auto simp add: output_hg_def Let_def split: option.splits)

text \<open>
  A step of a run keeps the counters inside the sequence. The lower bound \<open>lo\<close> is a
  parameter: 0 for a started controller, 1 once frame 0 is behind, \<open>lastFrame\<close> after
  exhaustion.
\<close>

lemma exec_invariant:
  assumes rect: "rectangular (qseqRef c)"
    and lo0: "0 \<le> lo" and lo: "lo \<le> currentFrame c" and hi: "currentFrame c \<le> lastFrame c"
    and last: "lastFrame c < numFrames (qseqRef c)"
    and nb: "numJoints c \<le> int (length (joints (body c)))"
    and np: "numJoints c \<le> numParts (qseqRef c)"
  shows "\<exists>c'. exec x c = Some c' \<and> qseqRef c' = qseqRef c \<and> lastFrame c' = lastFrame c
     \<and> numJoints c' = numJoints c \<and> length (joints (body c')) = length (joints (body c))
     \<and> lo \<le> currentFrame c' \<and> currentFrame c' \<le> lastFrame c'"
proof (cases x)
  case Input
  with lo hi show ?thesis by (simp add: input_def)
next
  case Control
  with lo hi show ?thesis by (simp add: control_fields control_currentFrame)
next
  case Output
  from lo0 lo have "0 \<le> currentFrame c" by simp
  from output_hg_writes [OF rect this hi last nb np]
  obtain c' where o: "output_hg c = Some c'"
    and len: "length (joints (body c')) = length (joints (body c))" by blast
  from output_hg_fields [OF o] len o Output lo hi show ?thesis by simp
qed

lemma run_invariant:
  assumes "rectangular (qseqRef c)"
    and "0 \<le> lo" and "lo \<le> currentFrame c" and "currentFrame c \<le> lastFrame c"
    and "lastFrame c < numFrames (qseqRef c)"
    and "numJoints c \<le> int (length (joints (body c)))"
    and "numJoints c \<le> numParts (qseqRef c)"
  shows "\<exists>c'. run calls c = Some c' \<and> qseqRef c' = qseqRef c \<and> lastFrame c' = lastFrame c
     \<and> numJoints c' = numJoints c \<and> length (joints (body c')) = length (joints (body c))
     \<and> lo \<le> currentFrame c' \<and> currentFrame c' \<le> lastFrame c'"
  using assms
proof (induction calls arbitrary: c)
  case Nil
  then show ?case by simp
next
  case (Cons x xs)
  from exec_invariant [OF Cons.prems, of x]
  obtain c1 where x: "exec x c = Some c1" and f: "qseqRef c1 = qseqRef c" "lastFrame c1 = lastFrame c"
    "numJoints c1 = numJoints c" "length (joints (body c1)) = length (joints (body c))"
    "lo \<le> currentFrame c1" "currentFrame c1 \<le> lastFrame c1" by blast
  have "\<exists>c'. run xs c1 = Some c' \<and> qseqRef c' = qseqRef c1 \<and> lastFrame c' = lastFrame c1
     \<and> numJoints c' = numJoints c1 \<and> length (joints (body c')) = length (joints (body c1))
     \<and> lo \<le> currentFrame c' \<and> currentFrame c' \<le> lastFrame c'"
    using Cons.prems f by (intro Cons.IH) simp_all
  with x f show ?case by simp
qed

text \<open>What a successful start leaves behind.\<close>

lemma start_success:
  assumes "start c0 target = (True, c1)"
  shows "0 < numFrames (qseqRef c0)"
    and "c1 = snd (control (start_init c0 target))"
    and "qseqRef c1 = qseqRef c0"
    and "lastFrame c1 = numFrames (qseqRef c0) - 1"
    and "currentFrame c1 = min 1 (numFrames (qseqRef c0) - 1)"
    and "numJoints c1 = min (Body_numJoints (target_body target)) (numParts (qseqRef c0))"
    and "body c1 = target_body target"
proof -
  from assms show n: "0 < numFrames (qseqRef c0)"
    by (simp add: start_cases numFrames_def split: if_splits)
  from assms show c1: "c1 = snd (control (start_init c0 target))"
    by (simp add: start_cases split: if_splits)
  show "qseqRef c1 = qseqRef c0"
    by (simp add: c1 control_fields start_init_def)
  from n show "lastFrame c1 = numFrames (qseqRef c0) - 1"
    by (simp add: c1 control_fields start_init_def)
  from n show "currentFrame c1 = min 1 (numFrames (qseqRef c0) - 1)"
    by (simp add: c1 control_currentFrame start_init_def)
  show "numJoints c1 = min (Body_numJoints (target_body target)) (numParts (qseqRef c0))"
    by (simp add: c1 control_fields start_init_def)
  show "body c1 = target_body target"
    by (simp add: c1 control_fields start_init_def)
qed

lemma started_invariant:
  assumes st: "start c0 target = (True, c1)" and rect: "rectangular (qseqRef c0)"
  shows "\<exists>c. run calls c1 = Some c \<and> qseqRef c = qseqRef c0
     \<and> lastFrame c = numFrames (qseqRef c0) - 1
     \<and> numJoints c = min (Body_numJoints (target_body target)) (numParts (qseqRef c0))
     \<and> length (joints (body c)) = length (joints (target_body target))
     \<and> min 1 (numFrames (qseqRef c0) - 1) \<le> currentFrame c \<and> currentFrame c \<le> lastFrame c"
proof -
  note s = start_success [OF st]
  have "\<exists>c'. run calls c1 = Some c' \<and> qseqRef c' = qseqRef c1 \<and> lastFrame c' = lastFrame c1
     \<and> numJoints c' = numJoints c1 \<and> length (joints (body c')) = length (joints (body c1))
     \<and> min 1 (numFrames (qseqRef c0) - 1) \<le> currentFrame c' \<and> currentFrame c' \<le> lastFrame c'"
    using s(1) rect by (intro run_invariant) (simp_all add: s(3-7) Body_numJoints_def)
  then show ?thesis by (simp add: s(3-7))
qed

text \<open>
  C1. After a successful start, at every point of a run a call of \<^verbatim>\<open>output()\<close>
  succeeds and writes, for every joint index below the smaller of the body's joint count
  and the motion's part count, the position \<open>q[f]\<close>, the velocity
  \<open>(q[f+1] - q[f]) / dt\<close> and the acceleration \<open>(q[f+1] - 2 q[f] + q[f-1]) / dt\<^sup>2\<close>,
  where \<open>f\<close> is the current frame, \<open>f - 1\<close> is clamped to 0 and \<open>f + 1\<close> to the last
  frame. The time step is taken non-zero, as the quotients are those of real numbers.
\<close>

theorem output_finite_differences:
  assumes started: "start c0 target = (True, c1)"
    and rect: "rectangular (qseqRef c0)"
    and dt: "getTimeStep (qseqRef c0) \<noteq> 0"
  shows "\<exists>c c'. run calls c1 = Some c \<and> output_hg c = Some c'
     \<and> 0 \<le> currentFrame c \<and> currentFrame c \<le> lastFrame c
     \<and> lastFrame c = numFrames (qseqRef c0) - 1
     \<and> (\<forall>i. 0 \<le> i \<and> i < min (Body_numJoints (target_body target)) (numParts (qseqRef c0)) \<longrightarrow>
           q (joints (body c') ! nat i) = frames (qseqRef c0) ! nat (currentFrame c) ! nat i
         \<and> dq (joints (body c') ! nat i)
             = (frames (qseqRef c0) ! nat (min (currentFrame c + 1) (lastFrame c)) ! nat i
                 - frames (qseqRef c0) ! nat (currentFrame c) ! nat i) / getTimeStep (qseqRef c0)
         \<and> ddq (joints (body c') ! nat i)
             = (frames (qseqRef c0) ! nat (min (currentFrame c + 1) (lastFrame c)) ! nat i
                 - 2 * (frames (qseqRef c0) ! nat (currentFrame c) ! nat i)
                 + frames (qseqRef c0) ! nat (max (currentFrame c - 1) 0) ! nat i)
               / (getTimeStep (qseqRef c0))\<^sup>2)"
proof -
  from started_invariant [OF started rect, of calls]
  obtain c where r: "run calls c1 = Some c" and sq: "qseqRef c = qseqRef c0"
    and last: "lastFrame c = numFrames (qseqRef c0) - 1"
    and nj: "numJoints c = min (Body_numJoints (target_body target)) (numParts (qseqRef c0))"
    and len: "length (joints (body c)) = length (joints (target_body target))"
    and lo: "min 1 (numFrames (qseqRef c0) - 1) \<le> currentFrame c"
    and hi: "currentFrame c \<le> lastFrame c" by blast
  from start_success(1) [OF started] lo have lo0: "0 \<le> currentFrame c" by simp
  have rect': "rectangular (qseqRef c)" using rect sq by simp
  have last': "lastFrame c < numFrames (qseqRef c)" using last sq by simp
  have nb: "numJoints c \<le> int (length (joints (body c)))"
    using nj len by (simp add: Body_numJoints_def)
  have np: "numJoints c \<le> numParts (qseqRef c)" using nj sq by simp
  from output_hg_writes [OF rect' lo0 hi last' nb np]
  obtain c' where o: "output_hg c = Some c'"
    and wr: "\<forall>i. 0 \<le> i \<and> i < numJoints c \<longrightarrow>
           joints (body c') ! nat i = (joints (body c) ! nat i)
             \<lparr>q := frames (qseqRef c) ! nat (currentFrame c) ! nat i,
              dq := (frames (qseqRef c) ! nat (min (currentFrame c + 1) (lastFrame c)) ! nat i
                      - frames (qseqRef c) ! nat (currentFrame c) ! nat i) / getTimeStep (qseqRef c),
              ddq := (frames (qseqRef c) ! nat (min (currentFrame c + 1) (lastFrame c)) ! nat i
                      - 2 * (frames (qseqRef c) ! nat (currentFrame c) ! nat i)
                      + frames (qseqRef c) ! nat (max (currentFrame c - 1) 0) ! nat i)
                     / (getTimeStep (qseqRef c) * getTimeStep (qseqRef c))\<rparr>" by blast
  have "\<forall>i. 0 \<le> i \<and> i < min (Body_numJoints (target_body target)) (numParts (qseqRef c0)) \<longrightarrow>
           q (joints (body c') ! nat i) = frames (qseqRef c0) ! nat (currentFrame c) ! nat i
         \<and> dq (joints (body c') ! nat i)
             = (frames (qseqRef c0) ! nat (min (currentFrame c + 1) (lastFrame c)) ! nat i
                 - frames (qseqRef c0) ! nat (currentFrame c) ! nat i) / getTimeStep (qseqRef c0)
         \<and> ddq (joints (body c') ! nat i)
             = (frames (qseqRef c0) ! nat (min (currentFrame c + 1) (lastFrame c)) ! nat i
                 - 2 * (frames (qseqRef c0) ! nat (currentFrame c) ! nat i)
                 + frames (qseqRef c0) ! nat (max (currentFrame c - 1) 0) ! nat i)
               / (getTimeStep (qseqRef c0))\<^sup>2"
  proof (intro allI impI)
    fix i
    assume "0 \<le> i \<and> i < min (Body_numJoints (target_body target)) (numParts (qseqRef c0))"
    then have "0 \<le> i \<and> i < numJoints c" using nj by simp
    with wr have e: "joints (body c') ! nat i = (joints (body c) ! nat i)
             \<lparr>q := frames (qseqRef c) ! nat (currentFrame c) ! nat i,
              dq := (frames (qseqRef c) ! nat (min (currentFrame c + 1) (lastFrame c)) ! nat i
                      - frames (qseqRef c) ! nat (currentFrame c) ! nat i) / getTimeStep (qseqRef c),
              ddq := (frames (qseqRef c) ! nat (min (currentFrame c + 1) (lastFrame c)) ! nat i
                      - 2 * (frames (qseqRef c) ! nat (currentFrame c) ! nat i)
                      + frames (qseqRef c) ! nat (max (currentFrame c - 1) 0) ! nat i)
                     / (getTimeStep (qseqRef c) * getTimeStep (qseqRef c))\<rparr>" by blast
    show "q (joints (body c') ! nat i) = frames (qseqRef c0) ! nat (currentFrame c) ! nat i
         \<and> dq (joints (body c') ! nat i)
             = (frames (qseqRef c0) ! nat (min (currentFrame c + 1) (lastFrame c)) ! nat i
                 - frames (qseqRef c0) ! nat (currentFrame c) ! nat i) / getTimeStep (qseqRef c0)
         \<and> ddq (joints (body c') ! nat i)
             = (frames (qseqRef c0) ! nat (min (currentFrame c + 1) (lastFrame c)) ! nat i
                 - 2 * (frames (qseqRef c0) ! nat (currentFrame c) ! nat i)
                 + frames (qseqRef c0) ! nat (max (currentFrame c - 1) 0) ! nat i)
               / (getTimeStep (qseqRef c0))\<^sup>2"
      unfolding e sq power2_eq_square by simp
  qed
  with r o lo0 hi last show ?thesis by blast
qed

lemma ex_start:
  "start ex_controller ex_target
     = (True, ex_started)"
  by (simp add: start_def start_init_def control_def Let_def numFrames_def
      frameRateDiffers_def Body_numJoints_def ex_started_def ex_controller_def ex_seq_def ex_target_def ex_body_def)

lemma ex_rectangular: "rectangular (qseqRef ex_controller)"
  by (simp add: rectangular_def ex_controller_def ex_seq_def)

theorem output_finite_differences_witness:
  "start ex_controller ex_target
     = (True, ex_started)
   \<and> rectangular (qseqRef ex_controller)
   \<and> getTimeStep (qseqRef ex_controller) \<noteq> 0
   \<and> (\<exists>c c'. run [Output, Control] ex_started = Some c
       \<and> output_hg c = Some c'
       \<and> 0 \<le> currentFrame c \<and> currentFrame c \<le> lastFrame c
       \<and> lastFrame c = numFrames (qseqRef ex_controller) - 1
       \<and> (\<forall>i. 0 \<le> i \<and> i < min (Body_numJoints (target_body ex_target))
                                (numParts (qseqRef ex_controller)) \<longrightarrow>
           q (joints (body c') ! nat i) = frames (qseqRef ex_controller) ! nat (currentFrame c) ! nat i
         \<and> dq (joints (body c') ! nat i)
             = (frames (qseqRef ex_controller) ! nat (min (currentFrame c + 1) (lastFrame c)) ! nat i
                 - frames (qseqRef ex_controller) ! nat (currentFrame c) ! nat i)
               / getTimeStep (qseqRef ex_controller)
         \<and> ddq (joints (body c') ! nat i)
             = (frames (qseqRef ex_controller) ! nat (min (currentFrame c + 1) (lastFrame c)) ! nat i
                 - 2 * (frames (qseqRef ex_controller) ! nat (currentFrame c) ! nat i)
                 + frames (qseqRef ex_controller) ! nat (max (currentFrame c - 1) 0) ! nat i)
               / (getTimeStep (qseqRef ex_controller))\<^sup>2))"
proof -
  have dt: "getTimeStep (qseqRef ex_controller) \<noteq> 0"
    by (simp add: ex_controller_def ex_seq_def)
  from output_finite_differences [OF ex_start ex_rectangular dt, of "[Output, Control]"]
    ex_start ex_rectangular dt
  show ?thesis by (intro conjI)
qed

text \<open>The values written in that run, computed.\<close>

lemma ex_output_values:
  "map_option (\<lambda>c. map (\<lambda>l. (q l, dq l, ddq l)) (joints (body c)))
     (run [Control, Output] (snd (start ex_controller ex_target)))
   = Some [(4, 0, -3000000), (9, 0, -6000000), (5, 5, 5)]"
  by (simp add: ex_start run.simps output_hg_def control_def Let_def frame_def numFrames_def
      output_loop.simps ex_started_def ex_seq_def ex_body_def ex_link_def)

text \<open>The returns of consecutive control calls: true while frames remain, then false.\<close>

lemma control_results_count:
  "currentFrame c \<le> lastFrame c \<Longrightarrow>
   control_results k c
     = replicate (min k (nat (lastFrame c - currentFrame c))) True
       @ replicate (k - nat (lastFrame c - currentFrame c)) False"
proof (induction k arbitrary: c)
  case 0
  then show ?case by simp
next
  case (Suc k)
  let ?c = "snd (control c)"
  show ?case
  proof (cases "currentFrame c + 1 \<le> lastFrame c")
    case True
    then have cf: "currentFrame ?c = currentFrame c + 1" and lf: "lastFrame ?c = lastFrame c"
      by (simp_all add: control_currentFrame control_fields)
    from True have d: "nat (lastFrame c - currentFrame c) = Suc (nat (lastFrame c - (currentFrame c + 1)))"
      by linarith
    from True cf lf have "currentFrame ?c \<le> lastFrame ?c" by simp
    from Suc.IH [OF this] have
      "control_results k ?c
         = replicate (min k (nat (lastFrame c - (currentFrame c + 1)))) True
           @ replicate (k - nat (lastFrame c - (currentFrame c + 1))) False"
      by (simp add: cf lf)
    with True show ?thesis
      by (simp add: control_fst d)
  next
    case False
    with Suc.prems have eq: "currentFrame c = lastFrame c" by simp
    then have cf: "currentFrame ?c = lastFrame ?c" and lf: "lastFrame ?c = lastFrame c"
      by (simp_all add: control_currentFrame control_fields)
    from cf have "currentFrame ?c \<le> lastFrame ?c" by simp
    from Suc.IH [OF this] have "control_results k ?c = replicate k False"
      by (simp add: cf)
    with False eq show ?thesis
      by (simp add: control_fst)
  qed
qed

text \<open>
  C3 (as amended). For a motion of \<open>N > 0\<close> frames whose frame rate matches,
  \<^verbatim>\<open>start()\<close> succeeds and exactly \<open>N - 1\<close> calls of \<^verbatim>\<open>control()\<close> return true
  before the first that returns false, the call made by \<^verbatim>\<open>start()\<close> itself
  included; the calls that follow \<^verbatim>\<open>start()\<close> return true exactly \<open>N - 2\<close> times
  (never for \<open>N = 1\<close>); every later call returns false. For \<open>N = 0\<close>
  \<^verbatim>\<open>start()\<close> fails with the empty-motion message.
\<close>

theorem control_successes:
  "(0 < numFrames (qseqRef c)
      \<and> \<not> frameRateDiffers (frameRate (qseqRef c)) (worldTimeStep target) \<longrightarrow>
      start c target = (True, snd (control (start_init c target)))
    \<and> (\<forall>k. control_results k (start_init c target)
           = replicate (min k (nat (numFrames (qseqRef c)) - 1)) True
             @ replicate (k - (nat (numFrames (qseqRef c)) - 1)) False)
    \<and> (\<forall>k. control_results k (snd (start c target))
           = replicate (min k (nat (numFrames (qseqRef c)) - 2)) True
             @ replicate (k - (nat (numFrames (qseqRef c)) - 2)) False))
   \<and> (numFrames (qseqRef c) = 0 \<longrightarrow>
      start c target = (False, putMessage (start_init c target) ''Reference motion is empty().''))"
proof (intro conjI impI allI)
  assume "numFrames (qseqRef c) = 0"
  then show "start c target = (False, putMessage (start_init c target) ''Reference motion is empty().'')"
    by (simp add: start_cases)
next
  assume a: "0 < numFrames (qseqRef c)
      \<and> \<not> frameRateDiffers (frameRate (qseqRef c)) (worldTimeStep target)"
  then show st: "start c target = (True, snd (control (start_init c target)))"
    by (simp add: start_cases)
  let ?c0 = "start_init c target"
  from a have f0: "currentFrame ?c0 = 0" "lastFrame ?c0 = numFrames (qseqRef c) - 1"
    by (simp_all add: start_init_def)
  fix k
  from a f0 have "currentFrame ?c0 \<le> lastFrame ?c0" by simp
  from control_results_count [OF this, of k] a
  show "control_results k ?c0
           = replicate (min k (nat (numFrames (qseqRef c)) - 1)) True
             @ replicate (k - (nat (numFrames (qseqRef c)) - 1)) False"
    by (simp add: f0 nat_diff_distrib)
  let ?c1 = "snd (control ?c0)"
  from a f0 have f1: "currentFrame ?c1 = min 1 (numFrames (qseqRef c) - 1)"
    "lastFrame ?c1 = numFrames (qseqRef c) - 1"
    by (simp_all add: control_currentFrame control_fields)
  from a f1 have le: "currentFrame ?c1 \<le> lastFrame ?c1" by simp
  from a f1 have d: "nat (lastFrame ?c1 - currentFrame ?c1) = nat (numFrames (qseqRef c)) - 2"
    by (simp add: min_def) linarith
  from control_results_count [OF le, of k]
  show "control_results k (snd (start c target))
           = replicate (min k (nat (numFrames (qseqRef c)) - 2)) True
             @ replicate (k - (nat (numFrames (qseqRef c)) - 2)) False"
    unfolding st d by simp
qed

text \<open>
  C7. Once \<^verbatim>\<open>control()\<close> has returned false in a run of a started controller, the
  current frame equals \<open>lastFrame\<close>, and after any further calls of the run it still
  does: every later \<^verbatim>\<open>control()\<close> returns false and leaves the controller as it is.
\<close>

theorem exhaustion_permanent:
  assumes started: "start c0 target = (True, c1)"
    and rect: "rectangular (qseqRef c0)"
    and reached: "run calls c1 = Some c"
    and exhausted: "control c = (False, c')"
  shows "currentFrame c' = lastFrame c'
     \<and> (\<forall>calls'. \<exists>c''. run calls' c' = Some c'' \<and> currentFrame c'' = lastFrame c''
           \<and> lastFrame c'' = lastFrame c' \<and> control c'' = (False, c''))"
proof -
  from started_invariant [OF started rect, of calls] reached
  have sq: "qseqRef c = qseqRef c0"
    and last: "lastFrame c = numFrames (qseqRef c0) - 1"
    and nj: "numJoints c = min (Body_numJoints (target_body target)) (numParts (qseqRef c0))"
    and len: "length (joints (body c)) = length (joints (target_body target))"
    by simp_all
  note n = start_success(1) [OF started]
  from exhausted have c': "c' = snd (control c)" by simp
  from exhausted have "\<not> fst (control c)" by simp
  then have full: "currentFrame c' = lastFrame c'"
    by (simp add: c' control_fst control_currentFrame control_fields)
  have f: "qseqRef c' = qseqRef c0" "lastFrame c' = numFrames (qseqRef c0) - 1"
    "numJoints c' = min (Body_numJoints (target_body target)) (numParts (qseqRef c0))"
    "length (joints (body c')) = length (joints (target_body target))"
    by (simp_all add: c' control_fields sq last nj len)
  have "\<exists>c''. run calls' c' = Some c'' \<and> currentFrame c'' = lastFrame c''
           \<and> lastFrame c'' = lastFrame c' \<and> control c'' = (False, c'')" for calls'
  proof -
    have "\<exists>c''. run calls' c' = Some c'' \<and> qseqRef c'' = qseqRef c' \<and> lastFrame c'' = lastFrame c'
       \<and> numJoints c'' = numJoints c' \<and> length (joints (body c'')) = length (joints (body c'))
       \<and> lastFrame c' \<le> currentFrame c'' \<and> currentFrame c'' \<le> lastFrame c''"
      using n rect full by (intro run_invariant) (simp_all add: f Body_numJoints_def)
    then obtain c'' where r: "run calls' c' = Some c''" and l: "lastFrame c'' = lastFrame c'"
      and e: "currentFrame c'' = lastFrame c''" by auto
    from e have "control c'' = (False, c'')"
      by (simp add: control_def Let_def)
    with r l e show ?thesis by blast
  qed
  with full show ?thesis by blast
qed

text \<open>
  C10. A successful \<^verbatim>\<open>start()\<close> returns the state left by one call of
  \<^verbatim>\<open>control()\<close>. With two frames or more that call returns true and the current
  frame is 1; it never falls below 1 afterwards, so every \<^verbatim>\<open>output()\<close> takes its
  position target from a frame other than frame 0. With one frame that call already
  returns false, the current frame stays at 0, the last frame, and \<^verbatim>\<open>start()\<close>
  has returned true all the same.
\<close>

theorem start_skips_first_frame:
  assumes started: "start c0 target = (True, c1)"
  shows "c1 = snd (control (start_init c0 target))
     \<and> (2 \<le> numFrames (qseqRef c0) \<longrightarrow>
          fst (control (start_init c0 target)) \<and> currentFrame c1 = 1)
     \<and> (2 \<le> numFrames (qseqRef c0) \<and> rectangular (qseqRef c0) \<longrightarrow>
          (\<forall>calls. \<exists>c c'. run calls c1 = Some c \<and> 1 \<le> currentFrame c \<and> output_hg c = Some c'
             \<and> (\<forall>i. 0 \<le> i \<and> i < numJoints c1 \<longrightarrow>
                   q (joints (body c') ! nat i)
                     = frames (qseqRef c0) ! nat (currentFrame c) ! nat i)))
     \<and> (numFrames (qseqRef c0) = 1 \<longrightarrow>
          \<not> fst (control (start_init c0 target)) \<and> currentFrame c1 = 0
          \<and> currentFrame c1 = lastFrame c1)"
proof (intro conjI impI allI)
  note s = start_success [OF started]
  show "c1 = snd (control (start_init c0 target))" by (rule s(2))
  {
    assume two: "2 \<le> numFrames (qseqRef c0)"
    then show "fst (control (start_init c0 target))"
      by (simp add: control_fst start_init_def)
    from two show "currentFrame c1 = 1" by (simp add: s(5))
  }
  {
    assume one: "numFrames (qseqRef c0) = 1"
    then show "\<not> fst (control (start_init c0 target))"
      by (simp add: control_fst start_init_def)
    from one show "currentFrame c1 = 0" by (simp add: s(5))
    from one show "currentFrame c1 = lastFrame c1" by (simp add: s(4,5))
  }
  fix calls
  assume a: "2 \<le> numFrames (qseqRef c0) \<and> rectangular (qseqRef c0)"
  then have rect: "rectangular (qseqRef c0)" by simp
  from started_invariant [OF started rect, of calls]
  obtain c where r: "run calls c1 = Some c" and sq: "qseqRef c = qseqRef c0"
    and last: "lastFrame c = numFrames (qseqRef c0) - 1"
    and nj: "numJoints c = min (Body_numJoints (target_body target)) (numParts (qseqRef c0))"
    and len: "length (joints (body c)) = length (joints (target_body target))"
    and lo: "min 1 (numFrames (qseqRef c0) - 1) \<le> currentFrame c"
    and hi: "currentFrame c \<le> lastFrame c" by blast
  from a lo have lo1: "1 \<le> currentFrame c" by simp
  then have lo0: "0 \<le> currentFrame c" by simp
  have rect': "rectangular (qseqRef c)" using rect sq by simp
  have last': "lastFrame c < numFrames (qseqRef c)" using last sq by simp
  have nb: "numJoints c \<le> int (length (joints (body c)))"
    using nj len by (simp add: Body_numJoints_def)
  have np: "numJoints c \<le> numParts (qseqRef c)" using nj sq by simp
  from output_hg_writes [OF rect' lo0 hi last' nb np]
  obtain c' where o: "output_hg c = Some c'"
    and wr: "\<forall>i. 0 \<le> i \<and> i < numJoints c \<longrightarrow>
           joints (body c') ! nat i = (joints (body c) ! nat i)
             \<lparr>q := frames (qseqRef c) ! nat (currentFrame c) ! nat i,
              dq := (frames (qseqRef c) ! nat (min (currentFrame c + 1) (lastFrame c)) ! nat i
                      - frames (qseqRef c) ! nat (currentFrame c) ! nat i) / getTimeStep (qseqRef c),
              ddq := (frames (qseqRef c) ! nat (min (currentFrame c + 1) (lastFrame c)) ! nat i
                      - 2 * (frames (qseqRef c) ! nat (currentFrame c) ! nat i)
                      + frames (qseqRef c) ! nat (max (currentFrame c - 1) 0) ! nat i)
                     / (getTimeStep (qseqRef c) * getTimeStep (qseqRef c))\<rparr>" by blast
  have "\<forall>i. 0 \<le> i \<and> i < numJoints c1 \<longrightarrow>
          q (joints (body c') ! nat i) = frames (qseqRef c0) ! nat (currentFrame c) ! nat i"
  proof (intro allI impI)
    fix i
    assume "0 \<le> i \<and> i < numJoints c1"
    then have "0 \<le> i \<and> i < numJoints c" using nj s(6) by simp
    with wr show "q (joints (body c') ! nat i) = frames (qseqRef c0) ! nat (currentFrame c) ! nat i"
      by (simp add: sq)
  qed
  with r lo1 o
  show "\<exists>c c'. run calls c1 = Some c \<and> 1 \<le> currentFrame c \<and> output_hg c = Some c'
             \<and> (\<forall>i. 0 \<le> i \<and> i < numJoints c1 \<longrightarrow>
                   q (joints (body c') ! nat i)
                     = frames (qseqRef c0) ! nat (currentFrame c) ! nat i)"
    by blast
qed

text \<open>The theorems above at the concrete inputs.\<close>

lemma ex_start_one: "start ex_controller_one ex_target = (True, ex_started_one)"
  by (simp add: start_def start_init_def control_def Let_def numFrames_def
      frameRateDiffers_def Body_numJoints_def ex_started_one_def ex_controller_one_def
      ex_controller_def ex_seq_def ex_target_def ex_body_def)

lemma ex_numFrames:
  "numFrames (qseqRef ex_controller) = 3" "numFrames (qseqRef ex_controller_one) = 1"
  "numFrames (qseqRef ex_controller_empty) = 0"
  by (simp_all add: numFrames_def ex_controller_def ex_controller_one_def
      ex_controller_empty_def ex_seq_def)

theorem control_successes_counterexample:
  "start ex_controller ex_target = (True, ex_started)
   \<and> numFrames (qseqRef ex_controller) = 3
   \<and> control_results 4 ex_started = [True, False, False, False]
   \<and> control_results 4 ex_started \<noteq> [True, True, True, False]
   \<and> control_results 4 (start_init ex_controller ex_target) = [True, True, False, False]
   \<and> control_results 4 (start_init ex_controller ex_target) \<noteq> [True, True, True, False]"
proof -
  have a: "control_results 4 ex_started = [True, False, False, False]"
    by (simp add: numeral_eq_Suc control_def Let_def ex_started_def)
  have b: "control_results 4 (start_init ex_controller ex_target) = [True, True, False, False]"
    by (simp add: numeral_eq_Suc control_def Let_def start_init_def numFrames_def
        ex_controller_def ex_seq_def)
  show ?thesis
    unfolding a b using ex_start ex_numFrames(1) by simp
qed

theorem control_successes_witness:
  "start ex_controller ex_target = (True, snd (control (start_init ex_controller ex_target)))
   \<and> (\<forall>k. control_results k (start_init ex_controller ex_target)
          = replicate (min k 2) True @ replicate (k - 2) False)
   \<and> (\<forall>k. control_results k (snd (start ex_controller ex_target))
          = replicate (min k 1) True @ replicate (k - 1) False)
   \<and> start ex_controller_empty ex_target
       = (False, putMessage (start_init ex_controller_empty ex_target)
           ''Reference motion is empty().'')"
proof -
  have h: "0 < numFrames (qseqRef ex_controller)
      \<and> \<not> frameRateDiffers (frameRate (qseqRef ex_controller)) (worldTimeStep ex_target)"
  proof -
    have "\<not> frameRateDiffers (frameRate (qseqRef ex_controller)) (worldTimeStep ex_target)"
      by (simp add: frameRateDiffers_def ex_controller_def ex_seq_def ex_target_def)
    then show ?thesis by (simp add: ex_numFrames)
  qed
  have n: "nat (numFrames (qseqRef ex_controller)) - 1 = 2"
    "nat (numFrames (qseqRef ex_controller)) - 2 = 1"
    by (simp_all add: ex_numFrames)
  note r1 = control_successes [of ex_controller ex_target, THEN conjunct1, THEN mp, OF h,
      unfolded n]
  note r2 = control_successes [of ex_controller_empty ex_target, THEN conjunct2, THEN mp,
      OF ex_numFrames(3)]
  note r1a = r1 [THEN conjunct1]
  note r1b = r1 [THEN conjunct2, THEN conjunct1]
  note r1c = r1 [THEN conjunct2, THEN conjunct2]
  from r1a r1b r1c r2 show ?thesis by (intro conjI)
qed

lemma ex_run_control: "run [Control] ex_started = Some ex_last"
  by (simp add: control_def Let_def ex_started_def ex_last_def)

lemma ex_control_last: "control ex_last = (False, ex_last)"
  by (simp add: control_def Let_def ex_started_def ex_last_def)

theorem exhaustion_permanent_witness:
  "start ex_controller ex_target = (True, ex_started)
   \<and> rectangular (qseqRef ex_controller)
   \<and> run [Control] ex_started = Some ex_last
   \<and> control ex_last = (False, ex_last)
   \<and> currentFrame ex_last = lastFrame ex_last
   \<and> (\<forall>calls'. \<exists>c''. run calls' ex_last = Some c'' \<and> currentFrame c'' = lastFrame c''
           \<and> lastFrame c'' = lastFrame ex_last \<and> control c'' = (False, c''))"
proof -
  note e = exhaustion_permanent [OF ex_start ex_rectangular ex_run_control ex_control_last]
  note e1 = e [THEN conjunct1]
  note e2 = e [THEN conjunct2]
  from ex_start ex_rectangular ex_run_control ex_control_last e1 e2
  show ?thesis by (intro conjI)
qed

theorem start_skips_first_frame_witness:
  "start ex_controller ex_target = (True, ex_started)
   \<and> start ex_controller_one ex_target = (True, ex_started_one)
   \<and> ex_started = snd (control (start_init ex_controller ex_target))
   \<and> fst (control (start_init ex_controller ex_target)) \<and> currentFrame ex_started = 1
   \<and> (\<forall>calls. \<exists>c c'. run calls ex_started = Some c \<and> 1 \<le> currentFrame c
          \<and> output_hg c = Some c'
          \<and> (\<forall>i. 0 \<le> i \<and> i < numJoints ex_started \<longrightarrow>
                q (joints (body c') ! nat i)
                  = frames (qseqRef ex_controller) ! nat (currentFrame c) ! nat i))
   \<and> \<not> fst (control (start_init ex_controller_one ex_target))
   \<and> currentFrame ex_started_one = 0
   \<and> currentFrame ex_started_one = lastFrame ex_started_one"
proof -
  have two: "2 \<le> numFrames (qseqRef ex_controller)" by (simp add: ex_numFrames)
  have two': "2 \<le> numFrames (qseqRef ex_controller) \<and> rectangular (qseqRef ex_controller)"
    using two ex_rectangular by simp
  note t = start_skips_first_frame [OF ex_start]
  note o = start_skips_first_frame [OF ex_start_one]
  note t1 = t [THEN conjunct1]
  note t2 = t [THEN conjunct2, THEN conjunct1, THEN mp, OF two]
  note t3 = t [THEN conjunct2, THEN conjunct2, THEN conjunct1, THEN mp, OF two']
  note o4 = o [THEN conjunct2, THEN conjunct2, THEN conjunct2, THEN mp, OF ex_numFrames(2)]
  note t2a = t2 [THEN conjunct1]
  note t2b = t2 [THEN conjunct2]
  note o4a = o4 [THEN conjunct1]
  note o4b = o4 [THEN conjunct2, THEN conjunct1]
  note o4c = o4 [THEN conjunct2, THEN conjunct2]
  from ex_start ex_start_one t1 t2a t2b t3 o4a o4b o4c show ?thesis by (intro conjI)
qed

section \<open>Properties of the simulator item\<close>

lemma call_Nil: "call impl [] = impl"
  by (simp add: call_def)

lemma call_call: "call (call impl xs) ys = call impl (xs @ ys)"
  by (simp add: call_def)

lemma kinematicsLoop_map: "kinematicsLoop body_call impl bs = call impl (map body_call bs)"
proof (induction bs arbitrary: impl)
  case Nil
  show ?case by (simp add: call_Nil)
next
  case (Cons b bs)
  then show ?case by (simp add: call_call)
qed

lemma stepSimulation_cases:
  "stepSimulation impl bs =
     (True, call impl (SolverClearExternalForces #
        (if dynamicsMode impl \<noteq> KINEMATICS then [CalcNextState]
         else if \<not> isKinematicWalkingEnabled impl then map plainKinematics bs
         else map walkingKinematics bs)))"
  by (simp add: stepSimulation_def Let_def kinematicsLoop_map call_call) (simp add: call_def)

text \<open>
  C4. \<^verbatim>\<open>stepSimulation\<close> first clears the external forces of the constraint force
  solver. When the dynamics mode is not Kinematics it then calls \<^verbatim>\<open>calcNextState()\<close>
  and returns true. In Kinematics mode with kinematic walking disabled it instead calls
  \<^verbatim>\<open>calcForwardKinematics(true, true)\<close> on every active body, in order, and never
  \<^verbatim>\<open>calcNextState()\<close>.
\<close>

theorem stepSimulation_dispatch:
  "(dynamicsMode impl \<noteq> KINEMATICS \<longrightarrow>
      stepSimulation impl bs
        = (True, impl\<lparr>trace := trace impl @ [SolverClearExternalForces, CalcNextState]\<rparr>))
   \<and> (dynamicsMode impl = KINEMATICS \<and> \<not> isKinematicWalkingEnabled impl \<longrightarrow>
      stepSimulation impl bs
        = (True, impl\<lparr>trace := trace impl @ SolverClearExternalForces #
                   map (\<lambda>simBody. BodyCalcForwardKinematics (addr (sim_body simBody)) True True) bs\<rparr>)
      \<and> CalcNextState \<notin> set (drop (length (trace impl)) (trace (snd (stepSimulation impl bs)))))"
proof (intro conjI impI)
  assume "dynamicsMode impl \<noteq> KINEMATICS"
  then show "stepSimulation impl bs
        = (True, impl\<lparr>trace := trace impl @ [SolverClearExternalForces, CalcNextState]\<rparr>)"
    by (simp add: stepSimulation_cases call_def)
next
  assume a: "dynamicsMode impl = KINEMATICS \<and> \<not> isKinematicWalkingEnabled impl"
  have pk: "plainKinematics = (\<lambda>simBody. BodyCalcForwardKinematics (addr (sim_body simBody)) True True)"
    by (rule ext) (simp add: plainKinematics_def)
  from a show st: "stepSimulation impl bs
        = (True, impl\<lparr>trace := trace impl @ SolverClearExternalForces #
                   map (\<lambda>simBody. BodyCalcForwardKinematics (addr (sim_body simBody)) True True) bs\<rparr>)"
    by (simp add: stepSimulation_cases call_def pk)
  show "CalcNextState \<notin> set (drop (length (trace impl)) (trace (snd (stepSimulation impl bs))))"
    unfolding st by auto
qed

lemma supportFoot_loop_min:
  assumes "i \<le> length feet"
    and "sf = None \<longrightarrow> i = 0"
    and "\<forall>s. sf = Some s \<longrightarrow> s < i \<and> (\<forall>j<i. z (p (feet ! s)) \<le> z (p (feet ! j)))
            \<and> (\<forall>j<s. z (p (feet ! s)) < z (p (feet ! j)))"
  shows "case supportFoot_loop feet i sf of
           None \<Rightarrow> feet = []
         | Some k \<Rightarrow> k < length feet \<and> (\<forall>j<length feet. z (p (feet ! k)) \<le> z (p (feet ! j)))
              \<and> (\<forall>j<k. z (p (feet ! k)) < z (p (feet ! j)))"
  using assms
proof (induction feet i sf rule: supportFoot_loop.induct)
  case (1 feet i sf)
  show ?case
  proof (cases "i < length feet")
    case True
    let ?sf = "case sf of None \<Rightarrow> Some i
           | Some s \<Rightarrow> if z (p (feet ! i)) < z (p (feet ! s)) then Some i else Some s"
    have step: "supportFoot_loop feet i sf = supportFoot_loop feet (i + 1) ?sf"
      using True by (subst supportFoot_loop.simps) simp
    have a1: "i + 1 \<le> length feet" using True by simp
    have a2: "?sf = None \<longrightarrow> i + 1 = 0" by (simp split: option.splits)
    have a3: "\<forall>s. ?sf = Some s \<longrightarrow> s < i + 1 \<and> (\<forall>j<i + 1. z (p (feet ! s)) \<le> z (p (feet ! j)))
            \<and> (\<forall>j<s. z (p (feet ! s)) < z (p (feet ! j)))"
    proof (cases sf)
      case None
      with "1.prems" have "i = 0" by simp
      with None show ?thesis by simp
    next
      case (Some s0)
      with "1.prems" have s0: "s0 < i" "\<forall>j<i. z (p (feet ! s0)) \<le> z (p (feet ! j))"
        "\<forall>j<s0. z (p (feet ! s0)) < z (p (feet ! j))" by simp_all
      show ?thesis
      proof (cases "z (p (feet ! i)) < z (p (feet ! s0))")
        case True
        have "\<forall>j<i. z (p (feet ! i)) < z (p (feet ! j))"
          using True s0(2) by fastforce
        then have "\<forall>j<i + 1. z (p (feet ! i)) \<le> z (p (feet ! j))"
          by (metis Suc_eq_plus1 less_Suc_eq less_eq_real_def)
        with True Some \<open>\<forall>j<i. z (p (feet ! i)) < z (p (feet ! j))\<close> show ?thesis by simp
      next
        case False
        then have "z (p (feet ! s0)) \<le> z (p (feet ! i))" by simp
        with s0(2) have "\<forall>j<i + 1. z (p (feet ! s0)) \<le> z (p (feet ! j))"
          by (metis Suc_eq_plus1 less_Suc_eq)
        with False Some s0 show ?thesis by simp
      qed
    qed
    from "1.IH" [OF True a1 a2 a3] show ?thesis unfolding step .
  next
    case False
    with "1.prems" have i: "i = length feet" by simp
    have "supportFoot_loop feet i sf = sf"
      using False by (subst supportFoot_loop.simps) simp
    with "1.prems" i show ?thesis by (auto split: option.splits)
  qed
qed

lemma supportFoot_lowest:
  assumes "feet \<noteq> []"
  shows "\<exists>k<length feet. supportFoot_loop feet 0 None = Some k
     \<and> (\<forall>j<length feet. z (p (feet ! k)) \<le> z (p (feet ! j)))
     \<and> (\<forall>j<k. z (p (feet ! k)) < z (p (feet ! j)))"
proof -
  have "case supportFoot_loop feet 0 None of
           None \<Rightarrow> feet = []
         | Some k \<Rightarrow> k < length feet \<and> (\<forall>j<length feet. z (p (feet ! k)) \<le> z (p (feet ! j)))
              \<and> (\<forall>j<k. z (p (feet ! k)) < z (p (feet ! j)))"
    by (rule supportFoot_loop_min) simp_all
  with assms show ?thesis by (auto split: option.splits)
qed

lemma supportFoot_two:
  "supportFoot_loop [f1, f2] 0 None = (if z (p f2) < z (p f1) then Some 1 else Some 0)"
  by (simp add: supportFoot_loop.simps)

text \<open>
  C5. In Kinematics mode with kinematic walking enabled \<^verbatim>\<open>stepSimulation\<close> makes one
  call per active body, in order. For a body whose leg information is invalid it is
  \<^verbatim>\<open>calcForwardKinematics(true, true)\<close> on the body. For a body with valid leg
  information (and at least one foot) it is the forward kinematics of the link traversal
  rooted at the support foot, which is a foot of minimal height \<open>z\<close> and the first such
  foot in the enumeration. Of two feet at heights 0.02 and 0.05 the one at 0.02 is chosen,
  whichever comes first.
\<close>

theorem stepSimulation_walking:
  assumes "dynamicsMode impl = KINEMATICS" and "isKinematicWalkingEnabled impl"
  shows "\<exists>calls. stepSimulation impl bs
            = (True, impl\<lparr>trace := trace impl @ SolverClearExternalForces # calls\<rparr>)
     \<and> length calls = length bs
     \<and> (\<forall>i<length bs.
          (\<not> isValid (legged (sim_body (bs ! i))) \<longrightarrow>
             calls ! i = BodyCalcForwardKinematics (addr (sim_body (bs ! i))) True True)
        \<and> (isValid (legged (sim_body (bs ! i))) \<and> footLinks (legged (sim_body (bs ! i))) \<noteq> [] \<longrightarrow>
             (\<exists>k<length (footLinks (legged (sim_body (bs ! i)))).
                calls ! i = LinkTraverseCalcForwardKinematics (addr (sim_body (bs ! i))) (Some k)
                              True True True True
              \<and> (\<forall>j<length (footLinks (legged (sim_body (bs ! i)))).
                    z (p (footLinks (legged (sim_body (bs ! i))) ! k))
                      \<le> z (p (footLinks (legged (sim_body (bs ! i))) ! j)))
              \<and> (\<forall>j<k. z (p (footLinks (legged (sim_body (bs ! i))) ! k))
                      < z (p (footLinks (legged (sim_body (bs ! i))) ! j))))))
     \<and> (\<forall>f1 f2. z (p f1) = 2 / 100 \<and> z (p f2) = 5 / 100 \<longrightarrow>
          supportFoot_loop [f1, f2] 0 None = Some 0 \<and> supportFoot_loop [f2, f1] 0 None = Some 1)"
proof -
  let ?calls = "map walkingKinematics bs"
  have st: "stepSimulation impl bs
            = (True, impl\<lparr>trace := trace impl @ SolverClearExternalForces # ?calls\<rparr>)"
    using assms by (simp add: stepSimulation_cases call_def)
  have each: "\<forall>i<length bs.
          (\<not> isValid (legged (sim_body (bs ! i))) \<longrightarrow>
             ?calls ! i = BodyCalcForwardKinematics (addr (sim_body (bs ! i))) True True)
        \<and> (isValid (legged (sim_body (bs ! i))) \<and> footLinks (legged (sim_body (bs ! i))) \<noteq> [] \<longrightarrow>
             (\<exists>k<length (footLinks (legged (sim_body (bs ! i)))).
                ?calls ! i = LinkTraverseCalcForwardKinematics (addr (sim_body (bs ! i))) (Some k)
                              True True True True
              \<and> (\<forall>j<length (footLinks (legged (sim_body (bs ! i)))).
                    z (p (footLinks (legged (sim_body (bs ! i))) ! k))
                      \<le> z (p (footLinks (legged (sim_body (bs ! i))) ! j)))
              \<and> (\<forall>j<k. z (p (footLinks (legged (sim_body (bs ! i))) ! k))
                      < z (p (footLinks (legged (sim_body (bs ! i))) ! j)))))"
  proof (intro allI impI conjI)
    fix i assume i: "i < length bs"
    {
      assume "\<not> isValid (legged (sim_body (bs ! i)))"
      with i show "?calls ! i = BodyCalcForwardKinematics (addr (sim_body (bs ! i))) True True"
        by (simp add: walkingKinematics_def Let_def)
    }
    assume v: "isValid (legged (sim_body (bs ! i))) \<and> footLinks (legged (sim_body (bs ! i))) \<noteq> []"
    let ?feet = "footLinks (legged (sim_body (bs ! i)))"
    from v have "?feet \<noteq> []" by simp
    from supportFoot_lowest [OF this]
    obtain k where k: "k < length ?feet" "supportFoot_loop ?feet 0 None = Some k"
      "\<forall>j<length ?feet. z (p (?feet ! k)) \<le> z (p (?feet ! j))"
      "\<forall>j<k. z (p (?feet ! k)) < z (p (?feet ! j))" by blast
    from i v k(2) have "?calls ! i
        = LinkTraverseCalcForwardKinematics (addr (sim_body (bs ! i))) (Some k) True True True True"
      by (simp add: walkingKinematics_def Let_def)
    with k show "\<exists>k<length ?feet.
                ?calls ! i = LinkTraverseCalcForwardKinematics (addr (sim_body (bs ! i))) (Some k)
                              True True True True
              \<and> (\<forall>j<length ?feet. z (p (?feet ! k)) \<le> z (p (?feet ! j)))
              \<and> (\<forall>j<k. z (p (?feet ! k)) < z (p (?feet ! j)))"
      by blast
  qed
  have two: "\<forall>f1 f2. z (p f1) = 2 / 100 \<and> z (p f2) = 5 / 100 \<longrightarrow>
          supportFoot_loop [f1, f2] 0 None = Some 0 \<and> supportFoot_loop [f2, f1] 0 None = Some 1"
    by (simp add: supportFoot_two)
  from st each two show ?thesis
    by (intro exI [of _ ?calls] conjI) simp_all
qed

theorem stepSimulation_dispatch_witness:
  "stepSimulation ex_impl [ex_humanoid, ex_box]
     = (True, ex_impl\<lparr>trace := trace ex_impl @ [SolverClearExternalForces, CalcNextState]\<rparr>)
   \<and> stepSimulation ex_impl_kinematics [ex_humanoid, ex_box]
     = (True, ex_impl_kinematics\<lparr>trace := trace ex_impl_kinematics @ SolverClearExternalForces #
         map (\<lambda>simBody. BodyCalcForwardKinematics (addr (sim_body simBody)) True True)
           [ex_humanoid, ex_box]\<rparr>)
   \<and> CalcNextState \<notin> set (drop (length (trace ex_impl_kinematics))
         (trace (snd (stepSimulation ex_impl_kinematics [ex_humanoid, ex_box]))))"
proof -
  have f: "dynamicsMode ex_impl \<noteq> KINEMATICS"
    by (simp add: ex_impl_def)
  have k: "dynamicsMode ex_impl_kinematics = KINEMATICS
      \<and> \<not> isKinematicWalkingEnabled ex_impl_kinematics"
    by (simp add: ex_impl_kinematics_def ex_impl_def)
  note r1 = stepSimulation_dispatch [of ex_impl "[ex_humanoid, ex_box]", THEN conjunct1,
      THEN mp, OF f]
  note r2 = stepSimulation_dispatch [of ex_impl_kinematics "[ex_humanoid, ex_box]",
      THEN conjunct2, THEN mp, OF k]
  note r2a = r2 [THEN conjunct1]
  note r2b = r2 [THEN conjunct2]
  from r1 r2a r2b show ?thesis by (intro conjI)
qed

lemma ex_walking_step:
  "trace (snd (stepSimulation ex_impl_walking [ex_humanoid, ex_box]))
     = [SolverClearExternalForces,
        LinkTraverseCalcForwardKinematics 7 (Some 1) True True True True,
        BodyCalcForwardKinematics 8 True True]"
  by (simp add: stepSimulation_cases call_def walkingKinematics_def Let_def supportFoot_two
      z_def ex_impl_walking_def ex_impl_def ex_humanoid_def ex_box_def ex_link_def)

theorem stepSimulation_walking_witness:
  "dynamicsMode ex_impl_walking = KINEMATICS \<and> isKinematicWalkingEnabled ex_impl_walking
   \<and> (\<exists>calls. stepSimulation ex_impl_walking [ex_humanoid, ex_box]
            = (True, ex_impl_walking\<lparr>trace := trace ex_impl_walking @ SolverClearExternalForces # calls\<rparr>)
     \<and> length calls = length [ex_humanoid, ex_box]
     \<and> (\<forall>i<length [ex_humanoid, ex_box].
          (\<not> isValid (legged (sim_body ([ex_humanoid, ex_box] ! i))) \<longrightarrow>
             calls ! i = BodyCalcForwardKinematics (addr (sim_body ([ex_humanoid, ex_box] ! i))) True True)
        \<and> (isValid (legged (sim_body ([ex_humanoid, ex_box] ! i)))
            \<and> footLinks (legged (sim_body ([ex_humanoid, ex_box] ! i))) \<noteq> [] \<longrightarrow>
             (\<exists>k<length (footLinks (legged (sim_body ([ex_humanoid, ex_box] ! i)))).
                calls ! i = LinkTraverseCalcForwardKinematics
                              (addr (sim_body ([ex_humanoid, ex_box] ! i))) (Some k)
                              True True True True
              \<and> (\<forall>j<length (footLinks (legged (sim_body ([ex_humanoid, ex_box] ! i)))).
                    z (p (footLinks (legged (sim_body ([ex_humanoid, ex_box] ! i))) ! k))
                      \<le> z (p (footLinks (legged (sim_body ([ex_humanoid, ex_box] ! i))) ! j)))
              \<and> (\<forall>j<k. z (p (footLinks (legged (sim_body ([ex_humanoid, ex_box] ! i))) ! k))
                      < z (p (footLinks (legged (sim_body ([ex_humanoid, ex_box] ! i))) ! j))))))
     \<and> (\<forall>f1 f2. z (p f1) = 2 / 100 \<and> z (p f2) = 5 / 100 \<longrightarrow>
          supportFoot_loop [f1, f2] 0 None = Some 0 \<and> supportFoot_loop [f2, f1] 0 None = Some 1))
   \<and> isValid (legged (sim_body ex_humanoid)) \<and> footLinks (legged (sim_body ex_humanoid)) \<noteq> []
   \<and> \<not> isValid (legged (sim_body ex_box))"
proof -
  have m: "dynamicsMode ex_impl_walking = KINEMATICS"
    and e: "isKinematicWalkingEnabled ex_impl_walking"
    by (simp_all add: ex_impl_walking_def ex_impl_def)
  have h: "isValid (legged (sim_body ex_humanoid))" "footLinks (legged (sim_body ex_humanoid)) \<noteq> []"
    by (simp_all add: ex_humanoid_def)
  have b: "\<not> isValid (legged (sim_body ex_box))"
    by (simp add: ex_box_def)
  from stepSimulation_walking [OF m e, of "[ex_humanoid, ex_box]"] m e h b
  show ?thesis by (intro conjI)
qed

lemma isHighGainMode_iff:
  "isHighGainMode impl simBody
     = (controller simBody = Some HighGainController \<or> dynamicsMode impl = HG_DYNAMICS)"
  by (simp add: isHighGainMode_def Let_def)

lemma resetJoints_length: "length (resetJoints ls) = length ls"
  by (induction ls) simp_all

lemma resetJoints_nth:
  "i < length ls \<Longrightarrow> resetJoints ls ! i = (ls ! i)\<lparr>u := 0, dq := 0, ddq := 0\<rparr>"
proof (induction ls arbitrary: i)
  case Nil
  then show ?case by simp
next
  case (Cons l ls)
  then show ?case by (cases i) simp_all
qed

lemma addBody_body:
  "sim_body (snd (addBody impl simBody))
     = (sim_body simBody)\<lparr>links := resetJoints
          ((links (sim_body simBody))[rootLink (sim_body simBody) :=
             resetRootLink (links (sim_body simBody) ! rootLink (sim_body simBody))])\<rparr>"
  "controller (snd (addBody impl simBody)) = controller simBody"
  by (simp_all add: addBody_def Let_def)

lemma addBody_impl:
  "fst (addBody impl simBody)
     = impl\<lparr>trace := trace impl @
               [BodyClearExternalForces (addr (sim_body simBody)),
                BodyCalcForwardKinematics (addr (sim_body simBody)) True True,
                AddBody (addr (sim_body simBody))
                  (if isHighGainMode impl simBody then HighGainForwardDynamicsCBM
                   else StandardForwardDynamics)],
             world_bodies := world_bodies impl @
               [(addr (sim_body simBody),
                 if isHighGainMode impl simBody then HighGainForwardDynamicsCBM
                 else StandardForwardDynamics)],
             bodyIndexMap := (bodyIndexMap impl)
               (addr (sim_body simBody) \<mapsto> int (length (world_bodies impl)))\<rparr>"
  by (simp add: addBody_def Let_def call_def)

lemma addBody_snd:
  "snd (addBody impl simBody)
     = simBody\<lparr>sim_body := (sim_body simBody)\<lparr>links := resetJoints
          ((links (sim_body simBody))[rootLink (sim_body simBody) :=
             resetRootLink (links (sim_body simBody) ! rootLink (sim_body simBody))])\<rparr>\<rparr>"
  by (simp add: addBody_def Let_def)


lemma addBody_dynamicsMode: "dynamicsMode (fst (addBody impl simBody)) = dynamicsMode impl"
  by (simp add: addBody_impl)

lemma addBodies_bodies:
  "snd (addBodies impl bs) = map (\<lambda>simBody. snd (addBody impl simBody)) bs"
proof (induction bs arbitrary: impl)
  case Nil
  show ?case by simp
next
  case (Cons b bs)
  have "snd (addBodies (fst (addBody impl b)) bs)
          = map (\<lambda>simBody. snd (addBody impl simBody)) bs"
    unfolding Cons.IH by (simp add: addBody_snd)
  then show ?case by (simp add: split_beta)
qed

lemma addBodies_trace:
  "dynamicsMode impl = m \<Longrightarrow>
   trace (fst (addBodies impl bs))
     = trace impl @ concat (map (\<lambda>simBody.
         [BodyClearExternalForces (addr (sim_body simBody)),
          BodyCalcForwardKinematics (addr (sim_body simBody)) True True,
          AddBody (addr (sim_body simBody))
            (if controller simBody = Some HighGainController \<or> m = HG_DYNAMICS
             then HighGainForwardDynamicsCBM else StandardForwardDynamics)]) bs)"
proof (induction bs arbitrary: impl)
  case Nil
  show ?case by simp
next
  case (Cons b bs)
  from Cons.prems have "dynamicsMode (fst (addBody impl b)) = m"
    by (simp add: addBody_dynamicsMode)
  from Cons.IH [OF this] Cons.prems show ?case
    by (simp add: split_beta addBody_impl isHighGainMode_iff)
qed

lemma addBodies_world_bodies:
  "dynamicsMode impl = m \<Longrightarrow>
   world_bodies (fst (addBodies impl bs))
     = world_bodies impl @ map (\<lambda>simBody.
         (addr (sim_body simBody),
          if controller simBody = Some HighGainController \<or> m = HG_DYNAMICS
          then HighGainForwardDynamicsCBM else StandardForwardDynamics)) bs"
proof (induction bs arbitrary: impl)
  case Nil
  show ?case by simp
next
  case (Cons b bs)
  from Cons.prems have "dynamicsMode (fst (addBody impl b)) = m"
    by (simp add: addBody_dynamicsMode)
  from Cons.IH [OF this] Cons.prems show ?case
    by (simp add: split_beta addBody_impl isHighGainMode_iff)
qed

lemma addBodies_integrationMode:
  "addBodies (impl\<lparr>integrationMode := mode\<rparr>) bs
     = ((fst (addBodies impl bs))\<lparr>integrationMode := mode\<rparr>, snd (addBodies impl bs))"
proof (induction bs arbitrary: impl)
  case Nil
  show ?case by simp
next
  case (Cons b bs)
  have "addBody (impl\<lparr>integrationMode := mode\<rparr>) b
          = ((fst (addBody impl b))\<lparr>integrationMode := mode\<rparr>, snd (addBody impl b))"
    by (simp add: addBody_def Let_def call_def isHighGainMode_def)
  with Cons.IH show ?case by (simp add: split_beta)
qed

text \<open>The state in which \<^verbatim>\<open>initializeSimulation\<close> enters the loop over the bodies.\<close>

lemma initializeSimulation_unfold:
  "initializeSimulation impl simBodies =
     (let impl2 = impl\<lparr>trace := trace impl @
              [SetEulerMethod,
               SetGravityAcceleration (gravity impl),
               EnableSensors True,
               SetTimeStep (self_worldTimeStep impl),
               SetCurrentTime 0,
               SetGaussSeidelErrorCriterion (fns_value (errorCriterion impl)),
               SetGaussSeidelMaxNumIterations (maxNumIterations impl),
               SetContactDepthCorrection (fns_value (contactCorrectionDepth impl))
                 (fns_value (contactCorrectionVelocityRatio impl)),
               ClearBodies],
            world_bodies := [], bodyIndexMap := Map.empty\<rparr>;
          impl3 = fst (addBodies impl2 simBodies)
      in (True,
          impl3\<lparr>trace := trace impl3 @
              [SetFriction (staticFriction impl3) (slipFriction impl3),
               SetContactCullingDistance (fns_value (contactCullingDistance impl3)),
               SetContactCullingDepth (fns_value (contactCullingDepth impl3)),
               SetCoefficientOfRestitution (epsilon impl3),
               SetCollisionDetector (self_collisionDetector impl3)]
              @ (if is2Dmode impl3 then [Set2Dmode True] else [])
              @ [SetPenaltyKp (penaltyKp impl3), SetPenaltyKv (penaltyKv impl3), Initialize]\<rparr>,
          snd (addBodies impl2 simBodies)))"
  by (simp add: initializeSimulation_def Let_def split_beta call_def)


text \<open>
  C6. \<^verbatim>\<open>addBody\<close> sets the six spatial velocity and acceleration vectors of the root
  link to zero, sets the joint torque, velocity and acceleration of every link to zero,
  clears the external forces of the body, recomputes its forward kinematics once, and
  registers the body with the world: with the high-gain strategy exactly when its
  controller is a \<^verbatim>\<open>HighGainControllerItem\<close> or the dynamics mode is High-gain dynamics,
  with standard forward dynamics otherwise. \<^verbatim>\<open>initializeSimulation\<close> does this to every
  body it is given, in order.
\<close>

theorem addBody_resets:
  "length (links (sim_body (snd (addBody impl simBody)))) = length (links (sim_body simBody))
   \<and> (rootLink (sim_body simBody) < length (links (sim_body simBody)) \<longrightarrow>
        v (links (sim_body (snd (addBody impl simBody))) ! rootLink (sim_body simBody)) = setZero
      \<and> dv (links (sim_body (snd (addBody impl simBody))) ! rootLink (sim_body simBody)) = setZero
      \<and> w (links (sim_body (snd (addBody impl simBody))) ! rootLink (sim_body simBody)) = setZero
      \<and> dw (links (sim_body (snd (addBody impl simBody))) ! rootLink (sim_body simBody)) = setZero
      \<and> vo (links (sim_body (snd (addBody impl simBody))) ! rootLink (sim_body simBody)) = setZero
      \<and> dvo (links (sim_body (snd (addBody impl simBody))) ! rootLink (sim_body simBody)) = setZero)
   \<and> (\<forall>i<length (links (sim_body simBody)).
        u (links (sim_body (snd (addBody impl simBody))) ! i) = 0
      \<and> dq (links (sim_body (snd (addBody impl simBody))) ! i) = 0
      \<and> ddq (links (sim_body (snd (addBody impl simBody))) ! i) = 0)
   \<and> trace (fst (addBody impl simBody))
       = trace impl @
          [BodyClearExternalForces (addr (sim_body simBody)),
           BodyCalcForwardKinematics (addr (sim_body simBody)) True True,
           AddBody (addr (sim_body simBody))
             (if controller simBody = Some HighGainController \<or> dynamicsMode impl = HG_DYNAMICS
              then HighGainForwardDynamicsCBM else StandardForwardDynamics)]
   \<and> world_bodies (fst (addBody impl simBody))
       = world_bodies impl @
          [(addr (sim_body simBody),
            if controller simBody = Some HighGainController \<or> dynamicsMode impl = HG_DYNAMICS
            then HighGainForwardDynamicsCBM else StandardForwardDynamics)]
   \<and> snd (snd (initializeSimulation impl simBodies))
       = map (\<lambda>simBody. snd (addBody impl simBody)) simBodies
   \<and> world_bodies (fst (snd (initializeSimulation impl simBodies)))
       = map (\<lambda>simBody.
           (addr (sim_body simBody),
            if controller simBody = Some HighGainController \<or> dynamicsMode impl = HG_DYNAMICS
            then HighGainForwardDynamicsCBM else StandardForwardDynamics)) simBodies"
proof (intro conjI impI allI)
  let ?b = "sim_body simBody"
  let ?ls = "(links ?b)[rootLink ?b := resetRootLink (links ?b ! rootLink ?b)]"
  have ls: "links (sim_body (snd (addBody impl simBody))) = resetJoints ?ls"
    by (simp add: addBody_body)
  show "length (links (sim_body (snd (addBody impl simBody)))) = length (links ?b)"
    by (simp add: ls resetJoints_length)
  {
    assume r: "rootLink ?b < length (links ?b)"
    then have root: "links (sim_body (snd (addBody impl simBody))) ! rootLink ?b
        = (resetRootLink (links ?b ! rootLink ?b))\<lparr>u := 0, dq := 0, ddq := 0\<rparr>"
      by (simp add: ls resetJoints_nth)
    show "v (links (sim_body (snd (addBody impl simBody))) ! rootLink ?b) = setZero"
      unfolding root by (simp add: resetRootLink_def)
    show "dv (links (sim_body (snd (addBody impl simBody))) ! rootLink ?b) = setZero"
      unfolding root by (simp add: resetRootLink_def)
    show "w (links (sim_body (snd (addBody impl simBody))) ! rootLink ?b) = setZero"
      unfolding root by (simp add: resetRootLink_def)
    show "dw (links (sim_body (snd (addBody impl simBody))) ! rootLink ?b) = setZero"
      unfolding root by (simp add: resetRootLink_def)
    show "vo (links (sim_body (snd (addBody impl simBody))) ! rootLink ?b) = setZero"
      unfolding root by (simp add: resetRootLink_def)
    show "dvo (links (sim_body (snd (addBody impl simBody))) ! rootLink ?b) = setZero"
      unfolding root by (simp add: resetRootLink_def)
  }
  {
    fix i assume "i < length (links ?b)"
    then have i: "links (sim_body (snd (addBody impl simBody))) ! i
        = (?ls ! i)\<lparr>u := 0, dq := 0, ddq := 0\<rparr>"
      by (simp add: ls resetJoints_nth)
    show "u (links (sim_body (snd (addBody impl simBody))) ! i) = 0"
      unfolding i by simp
    show "dq (links (sim_body (snd (addBody impl simBody))) ! i) = 0"
      unfolding i by simp
    show "ddq (links (sim_body (snd (addBody impl simBody))) ! i) = 0"
      unfolding i by simp
  }
  show "trace (fst (addBody impl simBody))
       = trace impl @
          [BodyClearExternalForces (addr ?b),
           BodyCalcForwardKinematics (addr ?b) True True,
           AddBody (addr ?b)
             (if controller simBody = Some HighGainController \<or> dynamicsMode impl = HG_DYNAMICS
              then HighGainForwardDynamicsCBM else StandardForwardDynamics)]"
    by (simp add: addBody_impl isHighGainMode_iff)
  show "world_bodies (fst (addBody impl simBody))
       = world_bodies impl @
          [(addr ?b,
            if controller simBody = Some HighGainController \<or> dynamicsMode impl = HG_DYNAMICS
            then HighGainForwardDynamicsCBM else StandardForwardDynamics)]"
    by (simp add: addBody_impl isHighGainMode_iff)
  show "snd (snd (initializeSimulation impl simBodies))
       = map (\<lambda>simBody. snd (addBody impl simBody)) simBodies"
    unfolding initializeSimulation_unfold Let_def snd_conv addBodies_bodies
    by (simp add: addBody_snd)
  show "world_bodies (fst (snd (initializeSimulation impl simBodies)))
       = map (\<lambda>simBody.
           (addr (sim_body simBody),
            if controller simBody = Some HighGainController \<or> dynamicsMode impl = HG_DYNAMICS
            then HighGainForwardDynamicsCBM else StandardForwardDynamics)) simBodies"
    by (simp add: initializeSimulation_unfold Let_def
        addBodies_world_bodies [where m = "dynamicsMode impl"])
qed


text \<open>
  C8. The integration mode does not reach the world. \<^verbatim>\<open>initializeSimulation\<close> returns
  the same value, the same bodies and the same state, the selected mode apart, whatever
  mode is selected; the first call it makes is \<^verbatim>\<open>setEulerMethod()\<close> and it never calls
  \<^verbatim>\<open>setRungeKuttaMethod()\<close>. A simulation step is the same under either mode as well.
\<close>

theorem integrationMode_ignored:
  "initializeSimulation (setIntegrationMode impl mode) simBodies
     = (fst (initializeSimulation impl simBodies),
        setIntegrationMode (fst (snd (initializeSimulation impl simBodies))) mode,
        snd (snd (initializeSimulation impl simBodies)))
   \<and> (\<exists>rest. trace (fst (snd (initializeSimulation impl simBodies)))
                = trace impl @ SetEulerMethod # rest
          \<and> SetRungeKuttaMethod \<notin> set rest)
   \<and> stepSimulation (setIntegrationMode impl mode) simBodies
       = (fst (stepSimulation impl simBodies),
          setIntegrationMode (snd (stepSimulation impl simBodies)) mode)"
proof (intro conjI)
  let ?impl2 = "impl\<lparr>trace := trace impl @
              [SetEulerMethod,
               SetGravityAcceleration (gravity impl),
               EnableSensors True,
               SetTimeStep (self_worldTimeStep impl),
               SetCurrentTime 0,
               SetGaussSeidelErrorCriterion (fns_value (errorCriterion impl)),
               SetGaussSeidelMaxNumIterations (maxNumIterations impl),
               SetContactDepthCorrection (fns_value (contactCorrectionDepth impl))
                 (fns_value (contactCorrectionVelocityRatio impl)),
               ClearBodies],
            world_bodies := [], bodyIndexMap := Map.empty\<rparr>"
  define pre where "pre = ?impl2"
  define loop where "loop = fst (addBodies pre simBodies)"
  define bodies where "bodies = snd (addBodies pre simBodies)"
  have pre_mode: "(impl\<lparr>integrationMode := mode\<rparr>)\<lparr>trace := trace (impl\<lparr>integrationMode := mode\<rparr>) @
              [SetEulerMethod,
               SetGravityAcceleration (gravity (impl\<lparr>integrationMode := mode\<rparr>)),
               EnableSensors True,
               SetTimeStep (self_worldTimeStep (impl\<lparr>integrationMode := mode\<rparr>)),
               SetCurrentTime 0,
               SetGaussSeidelErrorCriterion (fns_value (errorCriterion (impl\<lparr>integrationMode := mode\<rparr>))),
               SetGaussSeidelMaxNumIterations (maxNumIterations (impl\<lparr>integrationMode := mode\<rparr>)),
               SetContactDepthCorrection
                 (fns_value (contactCorrectionDepth (impl\<lparr>integrationMode := mode\<rparr>)))
                 (fns_value (contactCorrectionVelocityRatio (impl\<lparr>integrationMode := mode\<rparr>))),
               ClearBodies],
            world_bodies := [], bodyIndexMap := Map.empty\<rparr> = pre\<lparr>integrationMode := mode\<rparr>"
    unfolding pre_def by simp
  have loop_mode: "addBodies (pre\<lparr>integrationMode := mode\<rparr>) simBodies
      = (loop\<lparr>integrationMode := mode\<rparr>, bodies)"
    unfolding loop_def bodies_def by (rule addBodies_integrationMode)
  have plain: "initializeSimulation impl simBodies
      = (True,
          loop\<lparr>trace := trace loop @
              [SetFriction (staticFriction loop) (slipFriction loop),
               SetContactCullingDistance (fns_value (contactCullingDistance loop)),
               SetContactCullingDepth (fns_value (contactCullingDepth loop)),
               SetCoefficientOfRestitution (epsilon loop),
               SetCollisionDetector (self_collisionDetector loop)]
              @ (if is2Dmode loop then [Set2Dmode True] else [])
              @ [SetPenaltyKp (penaltyKp loop), SetPenaltyKv (penaltyKv loop), Initialize]\<rparr>,
          bodies)"
    unfolding initializeSimulation_unfold Let_def loop_def bodies_def pre_def ..
  have "initializeSimulation (impl\<lparr>integrationMode := mode\<rparr>) simBodies
      = (True,
          (loop\<lparr>integrationMode := mode\<rparr>)\<lparr>trace := trace (loop\<lparr>integrationMode := mode\<rparr>) @
              [SetFriction (staticFriction (loop\<lparr>integrationMode := mode\<rparr>))
                 (slipFriction (loop\<lparr>integrationMode := mode\<rparr>)),
               SetContactCullingDistance
                 (fns_value (contactCullingDistance (loop\<lparr>integrationMode := mode\<rparr>))),
               SetContactCullingDepth
                 (fns_value (contactCullingDepth (loop\<lparr>integrationMode := mode\<rparr>))),
               SetCoefficientOfRestitution (epsilon (loop\<lparr>integrationMode := mode\<rparr>)),
               SetCollisionDetector (self_collisionDetector (loop\<lparr>integrationMode := mode\<rparr>))]
              @ (if is2Dmode (loop\<lparr>integrationMode := mode\<rparr>) then [Set2Dmode True] else [])
              @ [SetPenaltyKp (penaltyKp (loop\<lparr>integrationMode := mode\<rparr>)),
                 SetPenaltyKv (penaltyKv (loop\<lparr>integrationMode := mode\<rparr>)), Initialize]\<rparr>,
          bodies)"
    unfolding initializeSimulation_unfold Let_def pre_mode loop_mode fst_conv snd_conv ..
  also have "\<dots> = (fst (initializeSimulation impl simBodies),
        (fst (snd (initializeSimulation impl simBodies)))\<lparr>integrationMode := mode\<rparr>,
        snd (snd (initializeSimulation impl simBodies)))"
    unfolding plain by simp
  finally have "initializeSimulation (impl\<lparr>integrationMode := mode\<rparr>) simBodies
     = (fst (initializeSimulation impl simBodies),
        (fst (snd (initializeSimulation impl simBodies)))\<lparr>integrationMode := mode\<rparr>,
        snd (snd (initializeSimulation impl simBodies)))" .
  then show "initializeSimulation (setIntegrationMode impl mode) simBodies
     = (fst (initializeSimulation impl simBodies),
        setIntegrationMode (fst (snd (initializeSimulation impl simBodies))) mode,
        snd (snd (initializeSimulation impl simBodies)))"
    by (simp add: setIntegrationMode_def)
  show "\<exists>rest. trace (fst (snd (initializeSimulation impl simBodies)))
                = trace impl @ SetEulerMethod # rest
          \<and> SetRungeKuttaMethod \<notin> set rest"
    by (auto simp add: initializeSimulation_unfold Let_def
        addBodies_trace [where m = "dynamicsMode impl"])
  show "stepSimulation (setIntegrationMode impl mode) simBodies
       = (fst (stepSimulation impl simBodies),
          setIntegrationMode (snd (stepSimulation impl simBodies)) mode)"
    by (simp add: stepSimulation_cases setIntegrationMode_def call_def)
qed


theorem addBody_resets_witness:
  "rootLink (sim_body ex_humanoid) < length (links (sim_body ex_humanoid))
   \<and> length (links (sim_body (snd (addBody ex_impl ex_humanoid)))) = length (links (sim_body ex_humanoid))
   \<and> v (links (sim_body (snd (addBody ex_impl ex_humanoid))) ! rootLink (sim_body ex_humanoid)) = setZero
   \<and> dv (links (sim_body (snd (addBody ex_impl ex_humanoid))) ! rootLink (sim_body ex_humanoid)) = setZero
   \<and> w (links (sim_body (snd (addBody ex_impl ex_humanoid))) ! rootLink (sim_body ex_humanoid)) = setZero
   \<and> dw (links (sim_body (snd (addBody ex_impl ex_humanoid))) ! rootLink (sim_body ex_humanoid)) = setZero
   \<and> vo (links (sim_body (snd (addBody ex_impl ex_humanoid))) ! rootLink (sim_body ex_humanoid)) = setZero
   \<and> dvo (links (sim_body (snd (addBody ex_impl ex_humanoid))) ! rootLink (sim_body ex_humanoid)) = setZero
   \<and> u (links (sim_body (snd (addBody ex_impl ex_humanoid))) ! 0) = 0
   \<and> dq (links (sim_body (snd (addBody ex_impl ex_humanoid))) ! 0) = 0
   \<and> ddq (links (sim_body (snd (addBody ex_impl ex_humanoid))) ! 0) = 0
   \<and> u (links (sim_body (snd (addBody ex_impl ex_humanoid))) ! 1) = 0
   \<and> dq (links (sim_body (snd (addBody ex_impl ex_humanoid))) ! 1) = 0
   \<and> ddq (links (sim_body (snd (addBody ex_impl ex_humanoid))) ! 1) = 0
   \<and> trace (fst (addBody ex_impl ex_humanoid))
       = [BodyClearExternalForces 7, BodyCalcForwardKinematics 7 True True,
          AddBody 7 HighGainForwardDynamicsCBM]
   \<and> world_bodies (fst (addBody ex_impl ex_humanoid)) = [(7, HighGainForwardDynamicsCBM)]
   \<and> trace (fst (addBody ex_impl ex_box))
       = [BodyClearExternalForces 8, BodyCalcForwardKinematics 8 True True,
          AddBody 8 StandardForwardDynamics]
   \<and> snd (snd (initializeSimulation ex_impl [ex_humanoid, ex_box]))
       = [snd (addBody ex_impl ex_humanoid), snd (addBody ex_impl ex_box)]
   \<and> world_bodies (fst (snd (initializeSimulation ex_impl [ex_humanoid, ex_box])))
       = [(7, HighGainForwardDynamicsCBM), (8, StandardForwardDynamics)]"
proof -
  have r: "rootLink (sim_body ex_humanoid) < length (links (sim_body ex_humanoid))"
    by (simp add: ex_humanoid_def)
  have h: "addr (sim_body ex_humanoid) = 7" "controller ex_humanoid = Some HighGainController"
    by (simp_all add: ex_humanoid_def)
  have b: "addr (sim_body ex_box) = 8" "controller ex_box = None"
    by (simp_all add: ex_box_def)
  have i: "trace ex_impl = []" "world_bodies ex_impl = []" "dynamicsMode ex_impl = FORWARD_DYNAMICS"
    by (simp_all add: ex_impl_def)
  note t = addBody_resets [of ex_impl ex_humanoid "[ex_humanoid, ex_box]"]
  note t1 = t [THEN conjunct1]
  note t2 = t [THEN conjunct2, THEN conjunct1, THEN mp, OF r]
  have n: "0 < length (links (sim_body ex_humanoid))" "1 < length (links (sim_body ex_humanoid))"
    by (simp_all add: ex_humanoid_def)
  note t3 = t [THEN conjunct2, THEN conjunct2, THEN conjunct1]
  note t30 = t3 [THEN spec, THEN mp, OF n(1)]
  note t31 = t3 [THEN spec, THEN mp, OF n(2)]
  note t30a = t30 [THEN conjunct1]
  note t30b = t30 [THEN conjunct2, THEN conjunct1]
  note t30c = t30 [THEN conjunct2, THEN conjunct2]
  note t31a = t31 [THEN conjunct1]
  note t31b = t31 [THEN conjunct2, THEN conjunct1]
  note t31c = t31 [THEN conjunct2, THEN conjunct2]
  note t4 = t [THEN conjunct2, THEN conjunct2, THEN conjunct2, THEN conjunct1]
  note t5 = t [THEN conjunct2, THEN conjunct2, THEN conjunct2, THEN conjunct2, THEN conjunct1]
  note t6 = t [THEN conjunct2, THEN conjunct2, THEN conjunct2, THEN conjunct2, THEN conjunct2,
      THEN conjunct1]
  note t7 = t [THEN conjunct2, THEN conjunct2, THEN conjunct2, THEN conjunct2, THEN conjunct2,
      THEN conjunct2]
  note s4 = addBody_resets [of ex_impl ex_box "[]", THEN conjunct2, THEN conjunct2,
      THEN conjunct2, THEN conjunct1]
  have c4: "trace (fst (addBody ex_impl ex_humanoid))
       = [BodyClearExternalForces 7, BodyCalcForwardKinematics 7 True True,
          AddBody 7 HighGainForwardDynamicsCBM]"
    using t4 by (simp add: h i)
  have c5: "world_bodies (fst (addBody ex_impl ex_humanoid)) = [(7, HighGainForwardDynamicsCBM)]"
    using t5 by (simp add: h i)
  have c4b: "trace (fst (addBody ex_impl ex_box))
       = [BodyClearExternalForces 8, BodyCalcForwardKinematics 8 True True,
          AddBody 8 StandardForwardDynamics]"
    using s4 by (simp add: b i)
  have c6: "snd (snd (initializeSimulation ex_impl [ex_humanoid, ex_box]))
       = [snd (addBody ex_impl ex_humanoid), snd (addBody ex_impl ex_box)]"
    using t6 by simp
  have c7: "world_bodies (fst (snd (initializeSimulation ex_impl [ex_humanoid, ex_box])))
       = [(7, HighGainForwardDynamicsCBM), (8, StandardForwardDynamics)]"
    using t7 by (simp add: h b i)
  note t2a = t2 [THEN conjunct1]
  note t2b = t2 [THEN conjunct2, THEN conjunct1]
  note t2c = t2 [THEN conjunct2, THEN conjunct2, THEN conjunct1]
  note t2d = t2 [THEN conjunct2, THEN conjunct2, THEN conjunct2, THEN conjunct1]
  note t2e = t2 [THEN conjunct2, THEN conjunct2, THEN conjunct2, THEN conjunct2, THEN conjunct1]
  note t2f = t2 [THEN conjunct2, THEN conjunct2, THEN conjunct2, THEN conjunct2, THEN conjunct2]
  from r t1 t2a t2b t2c t2d t2e t2f t30a t30b t30c t31a t31b t31c c4 c5 c4b c6 c7
  show ?thesis by (intro conjI)
qed

section \<open>Properties of store and restore\<close>

























end
